theory Spec2Isabelle
  imports Complex_Main "HOL-Library.Word"
begin

unbundle bit_operations_syntax

section \<open>JavaScript values\<close>

text \<open>
  JavaScript strings are modelled as \<open>string\<close>: a list of code units, restricted to the
  code units below 256. Values whose type is only known at run time (the result of
  \<open>JSON.parse\<close>, a field of a request body) are \<open>jsval\<close>.
\<close>

datatype jsval =
    JUndefined
  | JNull
  | JBool bool
  | JNumber rat
  | JString string
  | JArray "jsval list"
  | JObject "(string \<times> jsval) list"

datatype error = CacheError | TypeError | SyntaxError | Utf8Error | RedisError

text \<open>\<open>if (x)\<close> for \<open>x : string | null\<close>: null and the empty string are falsy.\<close>

fun truthy :: "string option \<Rightarrow> bool" where
  "truthy None = False"
| "truthy (Some s) = (s \<noteq> [])"

text \<open>
  Property read \<open>v.name\<close>: a TypeError on null and undefined, the own property of an
  object, undefined on every other value (none of them has a property called
  \<open>data\<close> or \<open>hmac\<close>, the only names read by the program).
\<close>

fun get_prop :: "jsval \<Rightarrow> string \<Rightarrow> error + jsval" where
  "get_prop JUndefined name = Inl TypeError"
| "get_prop JNull name = Inl TypeError"
| "get_prop (JObject kvs) name = (case map_of kvs name of None \<Rightarrow> Inr JUndefined | Some v \<Rightarrow> Inr v)"
| "get_prop v name = Inr JUndefined"

text \<open>\<open>s.slice(b, e)\<close> and \<open>s.substr(i, n)\<close> for indices that are not negative.\<close>

definition string_slice :: "string \<Rightarrow> nat \<Rightarrow> nat \<Rightarrow> string" where
  "string_slice s b e = take (e - b) (drop b s)"

definition substr :: "string \<Rightarrow> nat \<Rightarrow> nat \<Rightarrow> string" where
  "substr s i n = take n (drop i s)"

section \<open>crypto-js: word arrays and the Hex encoder\<close>

text \<open>
  A \<open>WordArray\<close> of crypto-js: 32-bit words and the number of significant bytes.
  \<open>sigBytes\<close> is a JavaScript number: \<open>Hex.parse\<close> sets it to half the length of its
  argument, which is not an integer for a string of odd length.
\<close>

record WordArray =
  words :: "32 word list"
  sigBytes :: rat

definition is_white_space :: "char \<Rightarrow> bool" where
  "is_white_space c = (of_char c \<in> {9, 10, 11, 12, 13, 32, 160 :: nat})"

definition hex_digit :: "char \<Rightarrow> nat option" where
  "hex_digit c =
     (let n = (of_char c :: nat) in
      if 48 \<le> n \<and> n \<le> 57 then Some (n - 48)
      else if 97 \<le> n \<and> n \<le> 102 then Some (n - 87)
      else if 65 \<le> n \<and> n \<le> 70 then Some (n - 55)
      else None)"

definition is_hex_digit :: "char \<Rightarrow> bool" where
  "is_hex_digit c = (hex_digit c \<noteq> None)"

definition hex_value :: "string \<Rightarrow> int" where
  "hex_value ds = foldl (\<lambda>acc c. 16 * acc + int (case hex_digit c of None \<Rightarrow> 0 | Some d \<Rightarrow> d)) 0 ds"

text \<open>
  \<open>parseInt(s, 16)\<close>: leading white space is dropped, then a sign, then a prefix
  \<open>0x\<close> or \<open>0X\<close>; the longest run of hexadecimal digits that follows is the value and
  what comes after it is ignored. \<open>None\<close> is NaN (no digit).
\<close>

definition strip_sign :: "string \<Rightarrow> int \<times> string" where
  "strip_sign s =
     (case s of
        [] \<Rightarrow> (1, [])
      | c # cs \<Rightarrow> if c = CHR ''-'' then (-1, cs) else if c = CHR ''+'' then (1, cs) else (1, s))"

definition strip_prefix_0x :: "string \<Rightarrow> string" where
  "strip_prefix_0x s =
     (case s of
        c # d # cs \<Rightarrow> if c = CHR ''0'' \<and> (d = CHR ''x'' \<or> d = CHR ''X'') then cs else s
      | _ \<Rightarrow> s)"

definition parseInt16 :: "string \<Rightarrow> int option" where
  "parseInt16 s =
     (let (sign, s1) = strip_sign (dropWhile is_white_space s);
          z = takeWhile is_hex_digit (strip_prefix_0x s1)
      in if z = [] then None else Some (sign * hex_value z))"

text \<open>ToInt32, as the operands of \<open><<\<close> and \<open>|=\<close> are converted: NaN is 0.\<close>

definition ToInt32 :: "int option \<Rightarrow> 32 word" where
  "ToInt32 v = (case v of None \<Rightarrow> 0 | Some n \<Rightarrow> word_of_int n)"

text \<open>\<open>ws[k] |= v\<close> on a JavaScript array: a missing element reads as 0, and the array grows.\<close>

definition or_at :: "32 word list \<Rightarrow> nat \<Rightarrow> 32 word \<Rightarrow> 32 word list" where
  "or_at ws k v =
     (if k < length ws then ws[k := (ws ! k) OR v]
      else ws @ replicate (k - length ws) 0 @ [v])"

text \<open>
  \<open>CryptoJS.enc.Hex.parse(hexStr)\<close>:
  \<^verbatim>\<open>for (var i = 0; i < hexStrLength; i += 2)
    words[i >>> 3] |= parseInt(hexStr.substr(i, 2), 16) << (24 - (i % 8) * 4);
  return new WordArray.init(words, hexStrLength / 2);\<close>
\<close>

definition Hex_parse :: "string \<Rightarrow> WordArray" where
  "Hex_parse hexStr =
     \<lparr> words =
         fold (\<lambda>i ws. or_at ws (i div 8)
                 (push_bit (24 - (i mod 8) * 4) (ToInt32 (parseInt16 (substr hexStr i 2)))))
           (map (\<lambda>j. 2 * j) [0 ..< (length hexStr + 1) div 2]) [],
       sigBytes = of_nat (length hexStr) / 2 \<rparr>"

section \<open>The libraries the server calls\<close>

text \<open>
  The hash, the MAC, the cipher and the JSON codec are library code outside the
  repository. They are parameters of the model; what a theorem needs of them is one of
  its hypotheses.
  \<^item> \<open>SHA256_hex s\<close> is \<open>CryptoJS.SHA256(s).toString(CryptoJS.enc.Hex)\<close>;
  \<^item> \<open>HmacSHA256_hex d k\<close> is \<open>CryptoJS.HmacSHA256(d, k).toString()\<close>;
  \<^item> \<open>AES_encrypt d key iv\<close> is \<open>CryptoJS.AES.encrypt(d, key, {iv}).toString()\<close> for a
    string \<open>d\<close>, and \<open>AES_encrypt_dyn\<close> the same call for a value that is not a string
    (\<open>None\<close> when the library throws);
  \<^item> \<open>AES_decrypt c key iv\<close> is \<open>CryptoJS.AES.decrypt(c, key, {iv})\<close>, a word array;
  \<^item> \<open>Utf8_stringify w\<close> is \<open>w.toString(CryptoJS.enc.Utf8)\<close>, which throws
    (\<open>None\<close>) on bytes that are not UTF-8;
  \<^item> \<open>JSON_parse s\<close> is \<open>None\<close> when \<open>JSON.parse\<close> throws a SyntaxError;
  \<^item> \<open>serverSecret\<close> is the random constant of app.ts, drawn once at start-up.
\<close>

record Env =
  SHA256_hex :: "string \<Rightarrow> string"
  HmacSHA256_hex :: "string \<Rightarrow> string \<Rightarrow> string"
  AES_encrypt :: "string \<Rightarrow> WordArray \<Rightarrow> WordArray \<Rightarrow> string"
  AES_encrypt_dyn :: "jsval \<Rightarrow> WordArray \<Rightarrow> WordArray \<Rightarrow> string option"
  AES_decrypt :: "string \<Rightarrow> WordArray \<Rightarrow> WordArray \<Rightarrow> WordArray"
  Utf8_stringify :: "WordArray \<Rightarrow> string option"
  JSON_stringify :: "jsval \<Rightarrow> string"
  JSON_parse :: "string \<Rightarrow> jsval option"
  serverSecret :: string

section \<open>app.ts: keys, tags, encryption\<close>

definition getKey :: "Env \<Rightarrow> string \<Rightarrow> string" where
  "getKey E secret = string_slice (SHA256_hex E secret) 0 64"

definition generateHMAC :: "Env \<Rightarrow> string \<Rightarrow> string \<Rightarrow> string" where
  "generateHMAC E data secret = HmacSHA256_hex E data secret"

definition generateServerHMAC :: "Env \<Rightarrow> string \<Rightarrow> string" where
  "generateServerHMAC E data = HmacSHA256_hex E data (serverSecret E)"

definition encryptData :: "Env \<Rightarrow> string \<Rightarrow> string \<Rightarrow> string \<Rightarrow> string" where
  "encryptData E data ident secret =
     (let key = getKey E secret;
          iv = string_slice ident 0 16
      in AES_encrypt E data (Hex_parse key) (Hex_parse iv))"

text \<open>
  \<open>encryptData\<close> called on a value read out of \<open>JSON.parse\<close>: a string goes the way
  above, anything else is handed to the library as it is.
\<close>

definition encryptData_dyn :: "Env \<Rightarrow> jsval \<Rightarrow> string \<Rightarrow> string \<Rightarrow> error + string" where
  "encryptData_dyn E data ident secret =
     (case data of
        JString d \<Rightarrow> Inr (encryptData E d ident secret)
      | _ \<Rightarrow>
          (let key = getKey E secret;
               iv = string_slice ident 0 16
           in case AES_encrypt_dyn E data (Hex_parse key) (Hex_parse iv) of
                None \<Rightarrow> Inl TypeError
              | Some c \<Rightarrow> Inr c))"

definition decryptData :: "Env \<Rightarrow> string \<Rightarrow> string \<Rightarrow> string \<Rightarrow> error + string" where
  "decryptData E encryptedData ident secret =
     (let key = getKey E secret;
          iv = string_slice ident 0 16;
          bytes = AES_decrypt E encryptedData (Hex_parse key) (Hex_parse iv)
      in case Utf8_stringify E bytes of
           None \<Rightarrow> Inl Utf8Error
         | Some decryptedData \<Rightarrow> Inr decryptedData)"

section \<open>The key-value store\<close>

text \<open>
  Redis, as the program uses it: string values under string keys, each with an expiry
  time in seconds. \<open>now\<close> is the store's clock; a key whose expiry has passed reads as
  absent. \<open>up\<close> tells whether the server accepts requests: while it does not, a command
  is answered with an error, and so is \<open>connect\<close>.
\<close>

record entry =
  val :: string
  expires :: nat

record Redis =
  kv :: "string \<Rightarrow> entry option"
  now :: nat
  isOpen :: bool
  up :: bool

definition redis_connect :: "Redis \<Rightarrow> error + Redis" where
  "redis_connect r = (if up r then Inr (r\<lparr>isOpen := True\<rparr>) else Inl RedisError)"

text \<open>What \<open>GET k\<close> finds: the value of a key that is present and has not expired.\<close>

definition live_value :: "Redis \<Rightarrow> string \<Rightarrow> string option" where
  "live_value r k =
     (case kv r k of
        None \<Rightarrow> None
      | Some e \<Rightarrow> if now r < expires e then Some (val e) else None)"

definition redis_get :: "Redis \<Rightarrow> string \<Rightarrow> error + string option" where
  "redis_get r k = (if up r then Inr (live_value r k) else Inl RedisError)"

text \<open>\<open>SET k v EX ex\<close>.\<close>

definition write_entry :: "string \<Rightarrow> string \<Rightarrow> nat \<Rightarrow> Redis \<Rightarrow> Redis" where
  "write_entry k v ex r = r\<lparr>kv := (kv r)(k \<mapsto> \<lparr>val = v, expires = now r + ex\<rparr>)\<rparr>"

datatype command = SET string string nat

fun run_command :: "command \<Rightarrow> Redis \<Rightarrow> Redis" where
  "run_command (SET k v ex) r = write_entry k v ex r"

text \<open>
  The server serves one request at a time, and between two requests of this client it
  serves its other clients. A single command is one request. So is a transaction:
  \<open>multi()\<close> queues commands in the client and \<open>exec()\<close> sends the queue, which the
  server runs with nothing in between.
\<close>

datatype request = Command command | Exec "command list"

fun serve :: "request \<Rightarrow> Redis \<Rightarrow> Redis" where
  "serve (Command c) r = run_command c r"
| "serve (Exec multi) r = fold run_command multi r"

definition send :: "Redis \<Rightarrow> request \<Rightarrow> error + Redis" where
  "send r q = (if up r then Inr (serve q r) else Inl RedisError)"

definition redis_set :: "Redis \<Rightarrow> string \<Rightarrow> string \<Rightarrow> nat \<Rightarrow> error + Redis" where
  "redis_set r k v ex = send r (Command (SET k v ex))"

text \<open>
  Requests sent one after the other, up to the first that is rejected; the store is
  returned as the requests served left it.
\<close>

fun send_all :: "Redis \<Rightarrow> request list \<Rightarrow> error option \<times> Redis" where
  "send_all r [] = (None, r)"
| "send_all r (q # qs) =
     (case send r q of
        Inl e \<Rightarrow> (Some e, r)
      | Inr r1 \<Rightarrow> send_all r1 qs)"

text \<open>
  The stores another client can find while the requests are served: the store before
  the first request, and the store after each request.
\<close>

fun states_seen :: "Redis \<Rightarrow> request list \<Rightarrow> Redis list" where
  "states_seen r [] = [r]"
| "states_seen r (q # qs) = r # states_seen (serve q r) qs"

text \<open>Time passing between two requests.\<close>

definition advance :: "nat \<Rightarrow> Redis \<Rightarrow> Redis" where
  "advance dt r = r\<lparr>now := now r + dt\<rparr>"

section \<open>CacheManager.ts\<close>

record UserInfo =
  ui_id :: string
  ui_secret :: string

record UserData =
  ud_id :: string
  ud_data :: string
  ud_hmac :: string

text \<open>
  What \<open>getUserData\<close> returns: the fields are whatever \<open>JSON.parse\<close> found under
  \<open>data\<close> and \<open>hmac\<close>, strings or not.
\<close>

record ParsedUserData =
  pd_id :: string
  pd_data :: jsval
  pd_hmac :: jsval

definition userInfo_key :: "string \<Rightarrow> string" where
  "userInfo_key ident = ''userInfo:'' @ ident"

definition userData_key :: "string \<Rightarrow> string" where
  "userData_key ident = ''userData:'' @ ident"

definition backup_key :: "string \<Rightarrow> string" where
  "backup_key ident = ''backup-userData:'' @ ident"

definition ensureConnected :: "Redis \<Rightarrow> error + Redis" where
  "ensureConnected r = (if \<not> isOpen r then redis_connect r else Inr r)"

text \<open>
  Every method of the class runs in \<open>try { ... } catch (error) { throw new CacheError(...) }\<close>:
  whatever is thrown inside leaves as a CacheError. The store is returned as it was
  when the exception was thrown.
\<close>

definition putUserInfo :: "UserInfo \<Rightarrow> Redis \<Rightarrow> (error + unit) \<times> Redis" where
  "putUserInfo userInfo r =
     (case ensureConnected r of
        Inl e \<Rightarrow> (Inl CacheError, r)
      | Inr r1 \<Rightarrow>
          (case redis_set r1 (userInfo_key (ui_id userInfo)) (ui_secret userInfo) (60 * 60) of
             Inl e \<Rightarrow> (Inl CacheError, r1)
           | Inr r2 \<Rightarrow> (Inr (), r2)))"

definition user_data_json :: "string \<Rightarrow> string \<Rightarrow> jsval" where
  "user_data_json d h = JObject [(''data'', JString d), (''hmac'', JString h)]"

text \<open>
  \<open>putUserData\<close> talks to the server once: it queues the two \<open>SET\<close>s on
  \<open>multi\<close> and sends them with the one \<open>exec()\<close>.
\<close>

definition putUserData_requests :: "Env \<Rightarrow> UserData \<Rightarrow> request list" where
  "putUserData_requests E userData =
     (let multi =
            [SET (userData_key (ud_id userData))
                 (JSON_stringify E (user_data_json (ud_data userData) (ud_hmac userData)))
                 (60 * 15),
             SET (backup_key (ud_id userData)) (ud_data userData) (60 * 15)]
      in [Exec multi])"

definition putUserData :: "Env \<Rightarrow> UserData \<Rightarrow> Redis \<Rightarrow> (error + unit) \<times> Redis" where
  "putUserData E userData r =
     (case ensureConnected r of
        Inl e \<Rightarrow> (Inl CacheError, r)
      | Inr r1 \<Rightarrow>
          (case send_all r1 (putUserData_requests E userData) of
             (Some e, r2) \<Rightarrow> (Inl CacheError, r2)
           | (None, r2) \<Rightarrow> (Inr (), r2)))"

definition putBackupUserData :: "UserData \<Rightarrow> Redis \<Rightarrow> (error + unit) \<times> Redis" where
  "putBackupUserData userData r =
     (case ensureConnected r of
        Inl e \<Rightarrow> (Inl CacheError, r)
      | Inr r1 \<Rightarrow>
          (case redis_set r1 (backup_key (ud_id userData)) (ud_data userData) (60 * 15) of
             Inl e \<Rightarrow> (Inl CacheError, r1)
           | Inr r2 \<Rightarrow> (Inr (), r2)))"

definition getUserInfo :: "string \<Rightarrow> Redis \<Rightarrow> (error + UserInfo option) \<times> Redis" where
  "getUserInfo ident r =
     (case ensureConnected r of
        Inl e \<Rightarrow> (Inl CacheError, r)
      | Inr r1 \<Rightarrow>
          (case redis_get r1 (userInfo_key ident) of
             Inl e \<Rightarrow> (Inl CacheError, r1)
           | Inr secret \<Rightarrow>
               (case secret of
                  Some s \<Rightarrow>
                    if truthy secret then
                      (let userInfo = \<lparr>ui_id = ident, ui_secret = s\<rparr>
                       in case putUserInfo userInfo r1 of
                            (Inl e, r2) \<Rightarrow> (Inl CacheError, r2)
                          | (Inr u, r2) \<Rightarrow> (Inr (Some userInfo), r2))
                    else (Inr None, r1)
                | None \<Rightarrow> (Inr None, r1))))"

definition getUserData :: "Env \<Rightarrow> string \<Rightarrow> Redis \<Rightarrow> (error + ParsedUserData option) \<times> Redis" where
  "getUserData E ident r =
     (case ensureConnected r of
        Inl e \<Rightarrow> (Inl CacheError, r)
      | Inr r1 \<Rightarrow>
          (case redis_get r1 (userData_key ident) of
             Inl e \<Rightarrow> (Inl CacheError, r1)
           | Inr data \<Rightarrow>
               (case data of
                  Some raw \<Rightarrow>
                    if truthy data then
                      (case JSON_parse E raw of
                         None \<Rightarrow> (Inl CacheError, r1)
                       | Some parsedData \<Rightarrow>
                           (case get_prop parsedData ''data'' of
                              Inl e \<Rightarrow> (Inl CacheError, r1)
                            | Inr d \<Rightarrow>
                                (case get_prop parsedData ''hmac'' of
                                   Inl e \<Rightarrow> (Inl CacheError, r1)
                                 | Inr h \<Rightarrow>
                                     (Inr (Some \<lparr>pd_id = ident, pd_data = d, pd_hmac = h\<rparr>), r1))))
                    else (Inr None, r1)
                | None \<Rightarrow> (Inr None, r1))))"

definition getBackupUserData :: "Env \<Rightarrow> string \<Rightarrow> Redis \<Rightarrow> (error + string option) \<times> Redis" where
  "getBackupUserData E ident r =
     (case ensureConnected r of
        Inl e \<Rightarrow> (Inl CacheError, r)
      | Inr r1 \<Rightarrow>
          (case redis_get r1 (backup_key ident) of
             Inl e \<Rightarrow> (Inl CacheError, r1)
           | Inr data \<Rightarrow>
               (case data of
                  Some d \<Rightarrow>
                    if truthy data then
                      (case redis_get r1 (userInfo_key ident) of
                         Inl e \<Rightarrow> (Inl CacheError, r1)
                       | Inr secret \<Rightarrow>
                           (case secret of
                              Some s \<Rightarrow>
                                if truthy secret then
                                  (let encryptedData = encryptData E d ident s;
                                       serverHmac = generateServerHMAC E encryptedData;
                                       userData = \<lparr>ud_id = ident, ud_data = d, ud_hmac = serverHmac\<rparr>
                                   in case putUserData E userData r1 of
                                        (Inl e, r2) \<Rightarrow> (Inl CacheError, r2)
                                      | (Inr u, r2) \<Rightarrow> (Inr (Some (ud_data userData)), r2))
                                else (Inr None, r1)
                            | None \<Rightarrow> (Inr None, r1)))
                    else (Inr None, r1)
                | None \<Rightarrow> (Inr None, r1))))"

section \<open>app.ts: the routes\<close>

text \<open>
  A response is its status code and its JSON body. The bodies the server sends:
  \<open>{status: 'failure', message}\<close>, \<open>{status: 'failure', error: 'Service Unavailable'}\<close>,
  \<open>{status: 'failure', error}\<close> with the exception caught,
  \<open>{status: 'success', message}\<close>, \<open>{status: 'success', data: {encryptedData, hmac}}\<close>
  and \<open>{status: 'success', message, data: {id, secret}}\<close>.
\<close>

datatype body =
    Failure_message string
  | Failure_error string
  | Failure_thrown error
  | Success_message string
  | Success_data string string
  | Success_connect string string string

datatype response = Response nat body

text \<open>The lines the routes write with \<open>console.error\<close>.\<close>

datatype log_line =
    Log_CacheManager error
  | Log_route string error
  | Log_tampering string

text \<open>The \<open>catch\<close> block shared by the three routes.\<close>

definition caught :: "string \<Rightarrow> error \<Rightarrow> response \<times> log_line list" where
  "caught route e =
     (if e = CacheError then
        (Response 503 (Failure_error ''Service Unavailable''), [Log_CacheManager e])
      else (Response 500 (Failure_thrown e), [Log_route route e]))"

definition bad_request :: response where
  "bad_request = Response 400 (Failure_message ''Bad Request.'')"

definition secret_missing :: response where
  "secret_missing = Response 400 (Failure_message ''Secret missing, please connect again.'')"

definition data_missing :: response where
  "data_missing = Response 400 (Failure_message ''Data missing, please save data again.'')"

definition tampered_no_backup :: response where
  "tampered_no_backup =
     Response 400 (Failure_message
       ''Data tampered and backup missing, please connect and save data again.'')"

definition integrity_compromised :: response where
  "integrity_compromised = Response 400 (Failure_message ''Data integrity compromised.'')"

text \<open>
  \<open>app.get('/connect')\<close>. The identity \<open>uuidv4()\<close> and the random secret are arguments.
  The cookie that carries the signed token is left out of the response.
\<close>

definition connect_route :: "string \<times> string \<Rightarrow> Redis \<Rightarrow> response \<times> Redis \<times> log_line list" where
  "connect_route fresh r =
     (let ident = fst fresh; secret = snd fresh
      in case putUserInfo \<lparr>ui_id = ident, ui_secret = secret\<rparr> r of
           (Inl e, r1) \<Rightarrow> (fst (caught ''connect'' e), r1, snd (caught ''connect'' e))
         | (Inr u, r1) \<Rightarrow>
             (Response 201 (Success_connect ''New secret and token created'' ident secret), r1, []))"

text \<open>
  \<open>app.get('/')\<close>. \<open>req_id\<close> is \<open>req.id\<close>, which the middleware sets from the token
  and which is undefined (\<open>None\<close>) otherwise.
\<close>

definition get_success :: "Env \<Rightarrow> string \<Rightarrow> string \<Rightarrow> response" where
  "get_success E encryptedData secret =
     (let hmac = generateHMAC E encryptedData secret
      in Response 200 (Success_data encryptedData hmac))"

definition get_route :: "Env \<Rightarrow> string option \<Rightarrow> Redis \<Rightarrow> response \<times> Redis \<times> log_line list" where
  "get_route E req_id r =
     (case req_id of
        None \<Rightarrow> (bad_request, r, [])
      | Some ident \<Rightarrow>
          if \<not> truthy req_id then (bad_request, r, [])
          else
            (case getUserInfo ident r of
               (Inl e, r1) \<Rightarrow> (fst (caught ''/'' e), r1, snd (caught ''/'' e))
             | (Inr None, r1) \<Rightarrow> (secret_missing, r1, [])
             | (Inr (Some userInfo), r1) \<Rightarrow>
                 (let secret = ui_secret userInfo
                  in case getUserData E ident r1 of
                       (Inl e, r2) \<Rightarrow> (fst (caught ''/'' e), r2, snd (caught ''/'' e))
                     | (Inr None, r2) \<Rightarrow> (data_missing, r2, [])
                     | (Inr (Some userData), r2) \<Rightarrow>
                         (case encryptData_dyn E (pd_data userData) ident secret of
                            Inl e \<Rightarrow> (fst (caught ''/'' e), r2, snd (caught ''/'' e))
                          | Inr encryptedData \<Rightarrow>
                              (let calculatedServerHmac = generateServerHMAC E encryptedData
                               in if JString calculatedServerHmac \<noteq> pd_hmac userData then
                                    (case getBackupUserData E ident r2 of
                                       (Inl e, r3) \<Rightarrow>
                                         (fst (caught ''/'' e), r3,
                                          Log_tampering ident # snd (caught ''/'' e))
                                     | (Inr backupData, r3) \<Rightarrow>
                                         (case backupData of
                                            None \<Rightarrow> (tampered_no_backup, r3, [Log_tampering ident])
                                          | Some b \<Rightarrow>
                                              if \<not> truthy backupData then
                                                (tampered_no_backup, r3, [Log_tampering ident])
                                              else
                                                (get_success E (encryptData E b ident secret) secret,
                                                 r3, [Log_tampering ident])))
                                  else (get_success E encryptedData secret, r2, []))))))"

text \<open>
  \<open>app.post('/')\<close>. The body is \<open>{data: encryptedData, hmac}\<close>; \<open>encryptedData\<close> is taken
  at the type the handler passes it on with, a string.
\<close>

definition post_route ::
  "Env \<Rightarrow> string option \<Rightarrow> string \<Rightarrow> jsval \<Rightarrow> Redis \<Rightarrow> response \<times> Redis \<times> log_line list" where
  "post_route E req_id encryptedData hmac r =
     (case req_id of
        None \<Rightarrow> (bad_request, r, [])
      | Some ident \<Rightarrow>
          if \<not> truthy req_id then (bad_request, r, [])
          else
            (case getUserInfo ident r of
               (Inl e, r1) \<Rightarrow> (fst (caught ''/'' e), r1, snd (caught ''/'' e))
             | (Inr None, r1) \<Rightarrow> (secret_missing, r1, [])
             | (Inr (Some userInfo), r1) \<Rightarrow>
                 (let secret = ui_secret userInfo
                  in case decryptData E encryptedData ident secret of
                       Inl e \<Rightarrow> (fst (caught ''/'' e), r1, snd (caught ''/'' e))
                     | Inr decryptedData \<Rightarrow>
                         (let calculatedHmac = generateHMAC E encryptedData secret
                          in if JString calculatedHmac \<noteq> hmac then (integrity_compromised, r1, [])
                             else
                               (let serverHmac = generateServerHMAC E encryptedData
                                in case putUserData E
                                          \<lparr>ud_id = ident, ud_data = decryptedData, ud_hmac = serverHmac\<rparr>
                                          r1 of
                                     (Inl e, r2) \<Rightarrow>
                                       (fst (caught ''/'' e), r2, snd (caught ''/'' e))
                                   | (Inr u, r2) \<Rightarrow>
                                       (Response 200 (Success_message ''Data Saved''), r2, []))))))"

section \<open>App.tsx: the client's session\<close>

record Client =
  c_data :: string
  c_secret :: "string option"
  c_id :: "string option"

text \<open>
  \<open>getTokenAndSecret(retries)\<close>: one request to \<open>/connect\<close>; a body without
  \<open>data.id\<close> makes the assignment throw, and the \<open>catch\<close> schedules the next attempt one
  second later while retries are left. \<open>fresh k\<close> is the identity and the secret the
  server draws at the attempt with \<open>k\<close> retries left.
\<close>

fun getTokenAndSecret ::
  "(nat \<Rightarrow> string \<times> string) \<Rightarrow> nat \<Rightarrow> Client \<times> Redis \<Rightarrow> Client \<times> Redis" where
  "getTokenAndSecret fresh 0 (c, r) =
     (case connect_route (fresh 0) r of
        (Response status (Success_connect m i s), r1, l) \<Rightarrow>
          (c\<lparr>c_id := Some i, c_secret := Some s\<rparr>, r1)
      | (other, r1, l) \<Rightarrow> (c, r1))"
| "getTokenAndSecret fresh (Suc n) (c, r) =
     (case connect_route (fresh (Suc n)) r of
        (Response status (Success_connect m i s), r1, l) \<Rightarrow>
          (c\<lparr>c_id := Some i, c_secret := Some s\<rparr>, r1)
      | (other, r1, l) \<Rightarrow> getTokenAndSecret fresh n (c, advance 1 r1))"

definition clearSecret :: "(nat \<Rightarrow> string \<times> string) \<Rightarrow> Client \<times> Redis \<Rightarrow> Client \<times> Redis" where
  "clearSecret fresh cr =
     (let c = fst cr; r = snd cr
      in getTokenAndSecret fresh 3 (c\<lparr>c_id := None, c_secret := None\<rparr>, r))"

section \<open>The stores the program reaches\<close>

text \<open>
  The secret stored for an identity, when there is one, is not the empty string.
\<close>

definition stored_secret_ok :: "Redis \<Rightarrow> string \<Rightarrow> bool" where
  "stored_secret_ok r ident =
     (case kv r (userInfo_key ident) of None \<Rightarrow> True | Some e \<Rightarrow> val e \<noteq> [])"

text \<open>
  A store is reached from an empty one by the three routes, by time passing, by the
  server starting or stopping to accept requests, and by someone overwriting or deleting
  a primary or a backup record from outside (the tampering the program is built to
  detect). The secret \<open>/connect\<close> draws is 32 random bytes written as 64 hexadecimal
  digits, so it is not empty.
\<close>

inductive reachable :: "Env \<Rightarrow> Redis \<Rightarrow> bool" for E :: Env where
  reachable_start: "reachable E \<lparr>kv = Map.empty, now = t, isOpen = opened, up = accepting\<rparr>"
| reachable_connect:
    "reachable E r \<Longrightarrow> snd fresh \<noteq> [] \<Longrightarrow> reachable E (fst (snd (connect_route fresh r)))"
| reachable_get: "reachable E r \<Longrightarrow> reachable E (fst (snd (get_route E req_id r)))"
| reachable_post:
    "reachable E r \<Longrightarrow> reachable E (fst (snd (post_route E req_id encryptedData hmac r)))"
| reachable_advance: "reachable E r \<Longrightarrow> reachable E (advance dt r)"
| reachable_up: "reachable E r \<Longrightarrow> reachable E (r\<lparr>up := accepting\<rparr>)"
| reachable_tamper_primary:
    "reachable E r \<Longrightarrow> reachable E (r\<lparr>kv := (kv r)(userData_key ident := x)\<rparr>)"
| reachable_tamper_backup:
    "reachable E r \<Longrightarrow> reachable E (r\<lparr>kv := (kv r)(backup_key ident := x)\<rparr>)"

section \<open>An executable instance of the libraries\<close>

text \<open>
  The theorems below hold for every \<open>Env\<close>. To run the handlers on a concrete store, the
  parameters are instantiated with small stand-ins: a cipher that reverses the
  plaintext behind a marker and decrypts anything without the marker to bytes that are
  not UTF-8, a MAC that joins key and message, and a JSON codec for the one object the
  program stores, on strings without a double quote.
\<close>

fun strip_prefix :: "string \<Rightarrow> string \<Rightarrow> string option" where
  "strip_prefix [] s = Some s"
| "strip_prefix (p # ps) [] = None"
| "strip_prefix (p # ps) (c # cs) = (if p = c then strip_prefix ps cs else None)"

definition not_quote :: "char \<Rightarrow> bool" where
  "not_quote c = (c \<noteq> CHR 0x22)"

definition demo_JSON_stringify :: "jsval \<Rightarrow> string" where
  \<open>demo_JSON_stringify v =
     (case v of
        JObject [(k1, JString d), (k2, JString h)] \<Rightarrow>
          ''{"'' @ k1 @ ''":"'' @ d @ ''","'' @ k2 @ ''":"'' @ h @ ''"}''
      | _ \<Rightarrow> ''null'')\<close>

definition demo_JSON_parse :: "string \<Rightarrow> jsval option" where
  \<open>demo_JSON_parse s =
     (case strip_prefix ''{"data":"'' s of
        None \<Rightarrow> if s = ''null'' then Some JNull else None
      | Some s1 \<Rightarrow>
          (case strip_prefix ''","hmac":"'' (dropWhile not_quote s1) of
             None \<Rightarrow> None
           | Some s2 \<Rightarrow>
               if dropWhile not_quote s2 = ''"}'' then
                 Some (user_data_json (takeWhile not_quote s1) (takeWhile not_quote s2))
               else None))\<close>

definition demo_AES_encrypt :: "string \<Rightarrow> WordArray \<Rightarrow> WordArray \<Rightarrow> string" where
  "demo_AES_encrypt d key iv = CHR ''#'' # rev d"

definition demo_AES_decrypt :: "string \<Rightarrow> WordArray \<Rightarrow> WordArray \<Rightarrow> WordArray" where
  "demo_AES_decrypt c key iv =
     (case c of
        [] \<Rightarrow> \<lparr>words = [], sigBytes = 0\<rparr>
      | x # cs \<Rightarrow>
          if x = CHR ''#'' then
            \<lparr>words = map (\<lambda>b. of_nat (of_char b)) (rev cs), sigBytes = of_nat (length cs)\<rparr>
          else \<lparr>words = [0xFFFFFFFF], sigBytes = 4\<rparr>)"

definition demo_Utf8_stringify :: "WordArray \<Rightarrow> string option" where
  "demo_Utf8_stringify w =
     (if list_all (\<lambda>x. x < 256) (words w) then Some (map (\<lambda>x. char_of (unat x)) (words w))
      else None)"

definition demo_env :: Env where
  "demo_env =
     \<lparr> SHA256_hex = (\<lambda>s. s),
       HmacSHA256_hex = (\<lambda>d k. k @ ''|'' @ d),
       AES_encrypt = demo_AES_encrypt,
       AES_encrypt_dyn = (\<lambda>v key iv. None),
       AES_decrypt = demo_AES_decrypt,
       Utf8_stringify = demo_Utf8_stringify,
       JSON_stringify = demo_JSON_stringify,
       JSON_parse = demo_JSON_parse,
       serverSecret = ''K'' \<rparr>"

text \<open>
  A store that answers, at time 0, holding for the identity \<open>u1\<close> the secret, the
  primary record and the backup record given (or none where \<open>None\<close>).
\<close>

definition demo_store :: "string option \<Rightarrow> string option \<Rightarrow> string option \<Rightarrow> Redis" where
  "demo_store secret primary backup =
     \<lparr> kv = (\<lambda>k. if k = userInfo_key ''u1'' then
                    map_option (\<lambda>v. \<lparr>val = v, expires = 3600\<rparr>) secret
                  else if k = userData_key ''u1'' then
                    map_option (\<lambda>v. \<lparr>val = v, expires = 900\<rparr>) primary
                  else if k = backup_key ''u1'' then
                    map_option (\<lambda>v. \<lparr>val = v, expires = 900\<rparr>) backup
                  else None),
       now = 0, isOpen = True, up = True \<rparr>"

text \<open>
  A primary record whose plaintext was overwritten in the store: the tag is still the
  one of the plaintext \<open>hello\<close>.
\<close>

definition tampered_raw :: string where
  \<open>tampered_raw = ''{"data":"evil","hmac":"K|#olleh"}''\<close>

definition demo_client :: Client where
  "demo_client = \<lparr>c_data = ''hello'', c_secret = Some ''s1'', c_id = Some ''u1''\<rparr>"

text \<open>The store after a first \<open>/connect\<close> that drew the identity \<open>u1\<close> and the secret \<open>s1\<close>.\<close>

definition demo_connected :: Redis where
  "demo_connected =
     fst (snd (connect_route (''u1'', ''s1'')
                 \<lparr>kv = Map.empty, now = 0, isOpen = False, up = True\<rparr>))"

text \<open>The identity and the secret the server draws when the client connects again.\<close>

definition demo_fresh :: "nat \<Rightarrow> string \<times> string" where
  "demo_fresh k = (''u2'', ''s2'')"

section \<open>What the theorems ask of JSON\<close>

text \<open>
  \<open>JSON.parse\<close> gives back the object \<open>{data: d, hmac: h}\<close> that \<open>JSON.stringify\<close> wrote,
  and the text written is not empty.
\<close>

definition json_round_trip :: "Env \<Rightarrow> string \<Rightarrow> string \<Rightarrow> bool" where
  "json_round_trip E d h =
     (JSON_stringify E (user_data_json d h) \<noteq> []
      \<and> JSON_parse E (JSON_stringify E (user_data_json d h)) = Some (user_data_json d h))"

section \<open>The store and the cache methods while the server answers\<close>

lemma up_write_entry: "up (write_entry k v ex r) = up r"
  by (simp add: write_entry_def)

lemma now_write_entry: "now (write_entry k v ex r) = now r"
  by (simp add: write_entry_def)

lemma isOpen_write_entry: "isOpen (write_entry k v ex r) = isOpen r"
  by (simp add: write_entry_def)

lemma kv_write_entry:
  "kv (write_entry k v ex r) k' =
     (if k' = k then Some \<lparr>val = v, expires = now r + ex\<rparr> else kv r k')"
  by (simp add: write_entry_def)

lemma live_value_write_entry:
  "live_value (write_entry k v ex r) k' =
     (if k' = k then (if 0 < ex then Some v else None) else live_value r k')"
  by (simp add: write_entry_def live_value_def split: option.splits)

lemma live_value_isOpen: "live_value (r\<lparr>isOpen := b\<rparr>) k = live_value r k"
  by (simp add: live_value_def split: option.splits)

lemma write_entry_isOpen:
  "(write_entry k v ex r)\<lparr>isOpen := b\<rparr> = write_entry k v ex (r\<lparr>isOpen := b\<rparr>)"
  by (simp add: write_entry_def)

lemmas store_simps = up_write_entry now_write_entry isOpen_write_entry kv_write_entry
  live_value_write_entry live_value_isOpen write_entry_isOpen

lemma up_advance: "up (advance dt r) = up r"
  by (simp add: advance_def)

lemma kv_advance: "kv (advance dt r) = kv r"
  by (simp add: advance_def)

lemma advance_isOpen: "(advance dt r)\<lparr>isOpen := b\<rparr> = advance dt (r\<lparr>isOpen := b\<rparr>)"
  by (simp add: advance_def)

lemma live_value_advance_Some:
  "live_value (advance dt r) k = Some v \<Longrightarrow> live_value r k = Some v"
  by (auto simp add: live_value_def advance_def split: option.splits if_splits)

lemma live_value_advance_write_entry:
  "live_value (advance dt (write_entry k v ex r)) k' =
     (if k' = k then (if dt < ex then Some v else None) else live_value (advance dt r) k')"
  by (simp add: write_entry_def live_value_def advance_def split: option.splits)

lemmas advance_simps = up_advance kv_advance advance_isOpen live_value_advance_write_entry

lemma keys_distinct:
  "userInfo_key i \<noteq> userData_key j" "userInfo_key i \<noteq> backup_key j"
  "userData_key i \<noteq> backup_key j" "userData_key j \<noteq> userInfo_key i"
  "backup_key j \<noteq> userInfo_key i" "backup_key j \<noteq> userData_key i"
  by (simp_all add: userInfo_key_def userData_key_def backup_key_def)

lemma ensureConnected_up: "up r \<Longrightarrow> ensureConnected r = Inr (r\<lparr>isOpen := True\<rparr>)"
  by (cases "isOpen r") (simp_all add: ensureConnected_def redis_connect_def)

lemma putUserInfo_up:
  "up r \<Longrightarrow>
   putUserInfo ui r =
     (Inr (), write_entry (userInfo_key (ui_id ui)) (ui_secret ui) 3600 (r\<lparr>isOpen := True\<rparr>))"
  by (simp add: putUserInfo_def ensureConnected_up redis_set_def send_def)

lemma getUserInfo_up:
  "up r \<Longrightarrow>
   getUserInfo i r =
     (case live_value r (userInfo_key i) of
        None \<Rightarrow> (Inr None, r\<lparr>isOpen := True\<rparr>)
      | Some s \<Rightarrow>
          if s = [] then (Inr None, r\<lparr>isOpen := True\<rparr>)
          else (Inr (Some \<lparr>ui_id = i, ui_secret = s\<rparr>),
                write_entry (userInfo_key i) s 3600 (r\<lparr>isOpen := True\<rparr>)))"
  by (simp add: getUserInfo_def ensureConnected_up redis_get_def putUserInfo_up
      live_value_isOpen split: option.splits)

lemma putUserData_up:
  "up r \<Longrightarrow>
   putUserData E ud r =
     (Inr (), write_entry (backup_key (ud_id ud)) (ud_data ud) 900
                (write_entry (userData_key (ud_id ud))
                   (JSON_stringify E (user_data_json (ud_data ud) (ud_hmac ud))) 900
                   (r\<lparr>isOpen := True\<rparr>)))"
  by (simp add: putUserData_def putUserData_requests_def ensureConnected_up send_def)

lemma putUserData_down: "\<not> up r \<Longrightarrow> putUserData E ud r = (Inl CacheError, r)"
  by (simp add: putUserData_def putUserData_requests_def ensureConnected_def redis_connect_def
      send_def)

lemma getBackupUserData_up:
  "up r \<Longrightarrow>
   getBackupUserData E i r =
     (case live_value r (backup_key i) of
        None \<Rightarrow> (Inr None, r\<lparr>isOpen := True\<rparr>)
      | Some d \<Rightarrow>
          if d = [] then (Inr None, r\<lparr>isOpen := True\<rparr>)
          else (case live_value r (userInfo_key i) of
                  None \<Rightarrow> (Inr None, r\<lparr>isOpen := True\<rparr>)
                | Some s \<Rightarrow>
                    if s = [] then (Inr None, r\<lparr>isOpen := True\<rparr>)
                    else (Inr (Some d),
                          write_entry (backup_key i) d 900
                            (write_entry (userData_key i)
                               (JSON_stringify E (user_data_json d
                                  (generateServerHMAC E (encryptData E d i s)))) 900
                               (r\<lparr>isOpen := True\<rparr>)))))"
  by (simp add: getBackupUserData_def ensureConnected_up redis_get_def putUserData_up
      live_value_isOpen Let_def split: option.splits)

lemma getBackupUserData_down: "\<not> up r \<Longrightarrow> getBackupUserData E i r = (Inl CacheError, r)"
  by (simp add: getBackupUserData_def ensureConnected_def redis_connect_def redis_get_def)

lemma getUserData_up:
  "up r \<Longrightarrow>
   getUserData E i r =
     (case live_value r (userData_key i) of
        None \<Rightarrow> (Inr None, r\<lparr>isOpen := True\<rparr>)
      | Some raw \<Rightarrow>
          if raw = [] then (Inr None, r\<lparr>isOpen := True\<rparr>)
          else (case JSON_parse E raw of
                  None \<Rightarrow> (Inl CacheError, r\<lparr>isOpen := True\<rparr>)
                | Some parsedData \<Rightarrow>
                    (case get_prop parsedData ''data'' of
                       Inl e \<Rightarrow> (Inl CacheError, r\<lparr>isOpen := True\<rparr>)
                     | Inr d \<Rightarrow>
                         (case get_prop parsedData ''hmac'' of
                            Inl e \<Rightarrow> (Inl CacheError, r\<lparr>isOpen := True\<rparr>)
                          | Inr h \<Rightarrow>
                              (Inr (Some \<lparr>pd_id = i, pd_data = d, pd_hmac = h\<rparr>),
                               r\<lparr>isOpen := True\<rparr>)))))"
  by (simp add: getUserData_def ensureConnected_up redis_get_def live_value_isOpen
      split: option.splits sum.splits)

lemma get_prop_user_data_json:
  "get_prop (user_data_json d h) ''data'' = Inr (JString d)"
  "get_prop (user_data_json d h) ''hmac'' = Inr (JString h)"
  by (simp_all add: user_data_json_def)

lemma write_entry_same:
  "kv r k = Some \<lparr>val = v, expires = now r + ex\<rparr> \<Longrightarrow> write_entry k v ex r = r"
  by (simp add: write_entry_def fun_upd_idem)

text \<open>
  While the server does not accept requests the methods end in a CacheError and leave the
  store as it is.
\<close>

lemma putUserInfo_down: "\<not> up r \<Longrightarrow> putUserInfo ui r = (Inl CacheError, r)"
  by (simp add: putUserInfo_def ensureConnected_def redis_connect_def redis_set_def send_def)

lemma getUserInfo_down: "\<not> up r \<Longrightarrow> getUserInfo i r = (Inl CacheError, r)"
  by (simp add: getUserInfo_def ensureConnected_def redis_connect_def redis_get_def)

lemma getUserData_down: "\<not> up r \<Longrightarrow> getUserData E i r = (Inl CacheError, r)"
  by (simp add: getUserData_def ensureConnected_def redis_connect_def redis_get_def)

text \<open>
  No method and no route stores an empty secret: \<open>putUserInfo\<close> is called with the
  secret \<open>/connect\<close> drew or with the one \<open>getUserInfo\<close> found truthy, and nothing else
  writes under a \<open>userInfo:\<close> key.
\<close>

lemma stored_secret_ok_isOpen: "stored_secret_ok (r\<lparr>isOpen := b\<rparr>) j = stored_secret_ok r j"
  by (simp add: stored_secret_ok_def)

lemma stored_secret_ok_write_entry:
  "stored_secret_ok (write_entry k v ex r) j =
     (if userInfo_key j = k then v \<noteq> [] else stored_secret_ok r j)"
  by (simp add: stored_secret_ok_def write_entry_def)

lemma putUserInfo_secret:
  "ui_secret ui \<noteq> [] \<Longrightarrow> stored_secret_ok r j \<Longrightarrow> stored_secret_ok (snd (putUserInfo ui r)) j"
  by (cases "up r")
     (simp_all add: putUserInfo_up putUserInfo_down stored_secret_ok_write_entry
        stored_secret_ok_isOpen)

lemma getUserInfo_secret:
  "stored_secret_ok r j \<Longrightarrow> stored_secret_ok (snd (getUserInfo i r)) j"
  by (cases "up r")
     (simp_all add: getUserInfo_up getUserInfo_down stored_secret_ok_write_entry
        stored_secret_ok_isOpen split: option.splits)

lemma getUserData_secret:
  "stored_secret_ok r j \<Longrightarrow> stored_secret_ok (snd (getUserData E i r)) j"
  by (cases "up r")
     (simp_all add: getUserData_up getUserData_down stored_secret_ok_isOpen
        split: option.splits sum.splits)

lemma putUserData_secret:
  "stored_secret_ok r j \<Longrightarrow> stored_secret_ok (snd (putUserData E ud r)) j"
  by (cases "up r")
     (simp_all add: putUserData_up putUserData_down stored_secret_ok_write_entry
        stored_secret_ok_isOpen keys_distinct)

lemma getBackupUserData_secret:
  "stored_secret_ok r j \<Longrightarrow> stored_secret_ok (snd (getBackupUserData E i r)) j"
  by (cases "up r")
     (simp_all add: getBackupUserData_up getBackupUserData_down stored_secret_ok_write_entry
        stored_secret_ok_isOpen keys_distinct split: option.splits)

lemma getUserInfo_secretD:
  "getUserInfo i r = (res, r1) \<Longrightarrow> stored_secret_ok r j \<Longrightarrow> stored_secret_ok r1 j"
  using getUserInfo_secret [of r j i] by simp

lemma getUserData_secretD:
  "getUserData E i r = (res, r1) \<Longrightarrow> stored_secret_ok r j \<Longrightarrow> stored_secret_ok r1 j"
  using getUserData_secret [of r j E i] by simp

lemma putUserData_secretD:
  "putUserData E ud r = (res, r1) \<Longrightarrow> stored_secret_ok r j \<Longrightarrow> stored_secret_ok r1 j"
  using putUserData_secret [of r j E ud] by simp

lemma getBackupUserData_secretD:
  "getBackupUserData E i r = (res, r1) \<Longrightarrow> stored_secret_ok r j \<Longrightarrow> stored_secret_ok r1 j"
  using getBackupUserData_secret [of r j E i] by simp

lemma connect_route_secret:
  assumes "snd fresh \<noteq> []" and "stored_secret_ok r j"
  shows "stored_secret_ok (fst (snd (connect_route fresh r))) j"
proof (cases "putUserInfo \<lparr>ui_id = fst fresh, ui_secret = snd fresh\<rparr> r")
  case (Pair res r1)
  have "stored_secret_ok r1 j"
    using putUserInfo_secret [of "\<lparr>ui_id = fst fresh, ui_secret = snd fresh\<rparr>" r j] assms Pair
    by simp
  then show ?thesis
    by (simp add: connect_route_def Let_def Pair split: sum.splits)
qed

lemma get_route_secret:
  assumes "stored_secret_ok r j"
  shows "stored_secret_ok (fst (snd (get_route E req_id r))) j"
proof (cases req_id)
  case None
  then show ?thesis using assms by (simp add: get_route_def)
next
  case (Some i)
  obtain res1 r1 where g1: "getUserInfo i r = (res1, r1)" by (cases "getUserInfo i r")
  obtain res2 r2 where g2: "getUserData E i r1 = (res2, r2)" by (cases "getUserData E i r1")
  obtain res3 r3 where g3: "getBackupUserData E i r2 = (res3, r3)"
    by (cases "getBackupUserData E i r2")
  have ok1: "stored_secret_ok r1 j" using g1 assms by (rule getUserInfo_secretD)
  have ok2: "stored_secret_ok r2 j" using g2 ok1 by (rule getUserData_secretD)
  have ok3: "stored_secret_ok r3 j" using g3 ok2 by (rule getBackupUserData_secretD)
  show ?thesis
    using assms ok1 ok2 ok3
    by (simp add: Some get_route_def Let_def g1 g2 g3 split: sum.splits option.splits)
qed

lemma post_route_secret:
  assumes "stored_secret_ok r j"
  shows "stored_secret_ok (fst (snd (post_route E req_id c h r))) j"
proof (cases req_id)
  case None
  then show ?thesis using assms by (simp add: post_route_def)
next
  case (Some i)
  obtain res1 r1 where g1: "getUserInfo i r = (res1, r1)" by (cases "getUserInfo i r")
  have ok1: "stored_secret_ok r1 j" using g1 assms by (rule getUserInfo_secretD)
  have ok2: "stored_secret_ok (snd (putUserData E ud r1)) j" for ud
    using ok1 by (rule putUserData_secret)
  show ?thesis
    using assms ok1 ok2
    by (auto simp add: Some post_route_def Let_def g1 split: sum.splits option.splits prod.splits
        dest: putUserData_secretD)
qed

lemma reachable_stored_secret_ok: "reachable E r \<Longrightarrow> stored_secret_ok r ident"
proof (induction rule: reachable.induct)
  case (reachable_start t opened accepting)
  show ?case by (simp add: stored_secret_ok_def)
next
  case (reachable_connect r fresh)
  then show ?case by (simp add: connect_route_secret)
next
  case (reachable_get r req_id)
  then show ?case by (simp add: get_route_secret)
next
  case (reachable_post r req_id encryptedData hmac)
  then show ?case by (simp add: post_route_secret)
next
  case (reachable_advance r dt)
  then show ?case by (simp add: stored_secret_ok_def advance_def)
next
  case (reachable_up r accepting)
  then show ?case by (simp add: stored_secret_ok_def)
next
  case (reachable_tamper_primary r i x)
  then show ?case by (simp add: stored_secret_ok_def keys_distinct)
next
  case (reachable_tamper_backup r i x)
  then show ?case by (simp add: stored_secret_ok_def keys_distinct)
qed

text \<open>A live key that holds the empty string is read as a missing secret.\<close>

lemma getUserInfo_empty_value:
  "up r \<Longrightarrow> live_value r (userInfo_key ident) = Some [] \<Longrightarrow>
   getUserInfo ident r = (Inr None, r\<lparr>isOpen := True\<rparr>)"
  by (simp add: getUserInfo_up)

lemma states_seen_putUserData:
  "states_seen r (putUserData_requests E ud) =
     [r, write_entry (backup_key (ud_id ud)) (ud_data ud) 900
           (write_entry (userData_key (ud_id ud))
              (JSON_stringify E (user_data_json (ud_data ud) (ud_hmac ud))) 900 r)]"
  by (simp add: putUserData_requests_def)

lemma connect_route_up:
  "up r \<Longrightarrow>
   connect_route fresh r =
     (Response 201 (Success_connect ''New secret and token created'' (fst fresh) (snd fresh)),
      write_entry (userInfo_key (fst fresh)) (snd fresh) 3600 (r\<lparr>isOpen := True\<rparr>), [])"
  by (simp add: connect_route_def putUserInfo_up Let_def)

lemma userInfo_key_inject: "userInfo_key i = userInfo_key j \<longleftrightarrow> i = j"
  by (simp add: userInfo_key_def)

text \<open>
  Whatever the store does, connecting again writes under the identities the server
  draws and nowhere else.
\<close>

lemma getTokenAndSecret_frame:
  "(\<forall>k\<le>n. fst (fresh k) \<noteq> old) \<Longrightarrow>
   kv (snd (getTokenAndSecret fresh n (c, r))) (userInfo_key old) = kv r (userInfo_key old)"
proof (induction n arbitrary: c r)
  case 0
  then show ?case
    by (cases "up r")
       (auto simp add: connect_route_def putUserInfo_def ensureConnected_def redis_connect_def
          redis_set_def send_def caught_def store_simps userInfo_key_inject Let_def
          split: sum.splits prod.splits response.splits body.splits if_splits)
next
  case (Suc n)
  have step: "kv (snd (getTokenAndSecret fresh n (c', advance (Suc 0) r'))) (userInfo_key old)
                = kv r' (userInfo_key old)" for c' r'
    using Suc.IH [of c' "advance (Suc 0) r'"] Suc.prems by (simp add: kv_advance)
  show ?case
    using Suc.prems
    by (cases "up r")
       (auto simp add: step connect_route_def putUserInfo_def ensureConnected_def redis_connect_def
          redis_set_def send_def caught_def store_simps userInfo_key_inject Let_def
          split: sum.splits prod.splits response.splits body.splits if_splits)
qed

lemma clearSecret_frame:
  "(\<forall>k\<le>3. fst (fresh k) \<noteq> old) \<Longrightarrow>
   kv (snd (clearSecret fresh (c, r))) (userInfo_key old) = kv r (userInfo_key old)"
  by (simp add: clearSecret_def getTokenAndSecret_frame)

text \<open>
  The part of the save route that does reject: when the decryption returns, a tag that
  does not verify is answered with the integrity error and nothing is stored.
\<close>

lemma post_route_rejects_bad_tag:
  assumes "up r" and "ident \<noteq> []"
    and "live_value r (userInfo_key ident) = Some secret" and "secret \<noteq> []"
    and "decryptData E encryptedData ident secret = Inr decryptedData"
    and "JString (generateHMAC E encryptedData secret) \<noteq> hmac"
  shows "fst (post_route E (Some ident) encryptedData hmac r)
           = Response 400 (Failure_message ''Data integrity compromised.'')
         \<and> kv (fst (snd (post_route E (Some ident) encryptedData hmac r))) (userData_key ident)
            = kv r (userData_key ident)
         \<and> kv (fst (snd (post_route E (Some ident) encryptedData hmac r))) (backup_key ident)
            = kv r (backup_key ident)"
  using assms
  by (simp add: post_route_def getUserInfo_up integrity_compromised_def store_simps keys_distinct)

text \<open>
  Save, then read: a ciphertext made by \<open>encryptData\<close> and sent with its transit tag is
  stored, and the read that follows finds the at-rest tag matching and answers the same
  ciphertext, with no tampering logged.
\<close>

lemma save_then_read:
  assumes "up r" and "ident \<noteq> []"
    and "live_value r (userInfo_key ident) = Some secret" and "secret \<noteq> []"
    and "\<And>p key iv. Utf8_stringify E (AES_decrypt E (AES_encrypt E p key iv) key iv) = Some p"
    and "json_round_trip E P (generateServerHMAC E (encryptData E P ident secret))"
  shows "fst (post_route E (Some ident) (encryptData E P ident secret)
                (JString (generateHMAC E (encryptData E P ident secret) secret)) r)
           = Response 200 (Success_message ''Data Saved'')
         \<and> fst (get_route E (Some ident)
                  (fst (snd (post_route E (Some ident) (encryptData E P ident secret)
                     (JString (generateHMAC E (encryptData E P ident secret) secret)) r))))
            = Response 200 (Success_data (encryptData E P ident secret)
                (generateHMAC E (encryptData E P ident secret) secret))
         \<and> snd (snd (get_route E (Some ident)
                  (fst (snd (post_route E (Some ident) (encryptData E P ident secret)
                     (JString (generateHMAC E (encryptData E P ident secret) secret)) r)))))
            = []"
proof -
  have dec: "decryptData E (encryptData E P ident secret) ident secret = Inr P"
    by (simp add: decryptData_def encryptData_def Let_def assms(5))
  show ?thesis
    using assms(1-4,6)
    by (simp add: post_route_def get_route_def getUserInfo_up getUserData_up putUserData_up dec
        store_simps keys_distinct json_round_trip_def get_prop_user_data_json encryptData_dyn_def
        get_success_def)
qed

section \<open>The executable instance\<close>

lemma live_value_demo_store:
  "live_value (demo_store secret primary backup) (userInfo_key ''u1'') = secret"
  "live_value (demo_store secret primary backup) (userData_key ''u1'') = primary"
  "live_value (demo_store secret primary backup) (backup_key ''u1'') = backup"
  by (simp_all add: live_value_def demo_store_def keys_distinct split: option.splits)

lemma up_demo_store: "up (demo_store secret primary backup)"
  by (simp add: demo_store_def)

lemma demo_env_simps:
  "SHA256_hex demo_env = (\<lambda>s. s)"
  "HmacSHA256_hex demo_env = (\<lambda>d k. k @ ''|'' @ d)"
  "AES_encrypt demo_env = demo_AES_encrypt"
  "AES_encrypt_dyn demo_env = (\<lambda>v key iv. None)"
  "AES_decrypt demo_env = demo_AES_decrypt"
  "Utf8_stringify demo_env = demo_Utf8_stringify"
  "JSON_stringify demo_env = demo_JSON_stringify"
  "JSON_parse demo_env = demo_JSON_parse"
  "serverSecret demo_env = ''K''"
  by (simp_all add: demo_env_def)

lemma demo_encryptData: "encryptData demo_env d i s = CHR ''#'' # rev d"
  by (simp add: encryptData_def demo_env_simps demo_AES_encrypt_def)

lemma demo_generateServerHMAC: "generateServerHMAC demo_env c = ''K|'' @ c"
  by (simp add: generateServerHMAC_def demo_env_simps)

lemma demo_generateHMAC: "generateHMAC demo_env c s = s @ ''|'' @ c"
  by (simp add: generateHMAC_def demo_env_simps)

lemma demo_cipher_round_trip:
  "Utf8_stringify demo_env (AES_decrypt demo_env (AES_encrypt demo_env p key iv) key iv) = Some p"
proof -
  have small: "(of_char b :: nat) < 256" for b :: char
  proof -
    have "(of_char b :: nat) mod 256 < 256" by (rule mod_less_divisor) simp
    then show ?thesis by simp
  qed
  have unat: "unat (of_nat (of_char b) :: 32 word) = of_char b" for b :: char
  proof -
    have "(of_char b :: nat) < 4294967296" using small [of b] by arith
    then show ?thesis by (simp add: unat_of_nat)
  qed
  have lt: "(of_nat (of_char b) :: 32 word) < 256" for b :: char
    using small [of b] by (simp add: word_less_nat_alt unat)
  have roundtrip_char: "char_of (unat (of_nat (of_char b) :: 32 word)) = b" for b :: char
    by (simp add: unat)
  show ?thesis
    by (simp add: demo_env_simps demo_AES_encrypt_def demo_AES_decrypt_def demo_Utf8_stringify_def
        list_all_iff lt roundtrip_char comp_def)
qed

lemma demo_connected_eq:
  "demo_connected =
     write_entry (userInfo_key ''u1'') ''s1'' 3600
       \<lparr>kv = Map.empty, now = 0, isOpen = True, up = True\<rparr>"
  by (simp add: demo_connected_def connect_route_up)

lemma reachable_demo_connected: "reachable E (advance dt demo_connected)"
proof -
  have "snd (''u1'', ''s1'') \<noteq> []" by simp
  then have "reachable E demo_connected"
    unfolding demo_connected_def by (rule reachable_connect [OF reachable_start])
  then show ?thesis by (rule reachable_advance)
qed

lemma demo_parse_tampered_raw:
  "JSON_parse demo_env tampered_raw = Some (user_data_json ''evil'' ''K|#olleh'')"
  by (simp add: demo_env_simps demo_JSON_parse_def tampered_raw_def user_data_json_def
      not_quote_def)

lemma tampered_raw_nonempty: "tampered_raw \<noteq> []"
  by (simp add: tampered_raw_def)

lemma demo_encryptData_dyn_evil:
  "encryptData_dyn demo_env (JString ''evil'') ''u1'' ''s1'' = Inr ''#live''"
  by (simp add: encryptData_dyn_def demo_encryptData)

lemma demo_tag_mismatch:
  "JString (generateServerHMAC demo_env ''#live'') \<noteq> JString ''K|#olleh''"
  by (simp add: demo_generateServerHMAC)

lemma demo_json_round_trip_hello:
  "json_round_trip demo_env ''hello''
     (generateServerHMAC demo_env (encryptData demo_env ''hello'' ''u1'' ''s1''))"
  by (simp add: json_round_trip_def demo_env_simps demo_generateServerHMAC demo_encryptData
      demo_JSON_parse_def demo_JSON_stringify_def user_data_json_def not_quote_def)

section \<open>The claims\<close>

text \<open>
  C6. The self-heal operation \<open>getBackupUserData\<close> (promoteBackup) is idempotent. Run a
  second time on the store the first run left, with no write in between, it returns
  the same result and leaves the same store: the same primary record (plaintext and
  recomputed at-rest tag), the same backup record, the same expiry times. When time
  \<open>dt\<close> passes between the two runs, every key still holds the value the first run
  left under it. This holds for every store, so in particular for an identity with a
  live secret and a present backup record.
\<close>

theorem promoteBackup_idempotent:
  "getBackupUserData E ident (snd (getBackupUserData E ident r)) = getBackupUserData E ident r
   \<and> map_option val
        (kv (snd (getBackupUserData E ident (advance dt (snd (getBackupUserData E ident r))))) k)
      = map_option val (kv (snd (getBackupUserData E ident r)) k)"
proof (cases "up r")
  case False
  then show ?thesis
    by (simp add: getBackupUserData_down up_advance kv_advance)
next
  case True
  have same_time:
    "getBackupUserData E ident (snd (getBackupUserData E ident r)) = getBackupUserData E ident r"
    apply (simp add: getBackupUserData_up True store_simps keys_distinct split: option.splits)
    apply (auto simp add: write_entry_def fun_eq_iff keys_distinct)
    done
  have later:
    "map_option val
        (kv (snd (getBackupUserData E ident (advance dt (snd (getBackupUserData E ident r))))) k)
      = map_option val (kv (snd (getBackupUserData E ident r)) k)"
    apply (simp add: getBackupUserData_up True store_simps keys_distinct advance_simps
        split: option.splits)
    apply (auto simp add: getBackupUserData_up True store_simps keys_distinct advance_simps
        dest!: live_value_advance_Some split: option.splits if_splits)
    done
  from same_time later show ?thesis by simp
qed

text \<open>
  C5, as amended. \<open>putUserData\<close> (save) on a server that accepts requests writes the
  primary record \<open>JSON.stringify({data: plaintext, hmac: tag})\<close> and the backup record
  \<open>plaintext\<close>, each expiring 15 minutes (900 seconds) later, and no other key. It does
  so in one transaction: the store it leaves is the last of the stores another client
  can find while its requests are served, and in each of these stores the primary and
  the backup record are either both as they were or both as written. Read back,
  \<open>getUserData\<close> gives the plaintext out of the primary record (\<open>JSON.parse\<close> taken to
  invert \<open>JSON.stringify\<close> on this object); \<open>getBackupUserData\<close> gives the same
  plaintext out of the backup record when the plaintext is not empty and the identity
  has a live, non-empty secret, and gives null when the plaintext is the empty string.
\<close>

theorem putUserData_writes_both:
  assumes "up r"
  shows "fst (putUserData E \<lparr>ud_id = ident, ud_data = plaintext, ud_hmac = tag\<rparr> r) = Inr ()
      \<and> snd (putUserData E \<lparr>ud_id = ident, ud_data = plaintext, ud_hmac = tag\<rparr> r)
         = last (states_seen (r\<lparr>isOpen := True\<rparr>)
                   (putUserData_requests E \<lparr>ud_id = ident, ud_data = plaintext, ud_hmac = tag\<rparr>))
      \<and> (\<forall>s \<in> set (states_seen (r\<lparr>isOpen := True\<rparr>)
                   (putUserData_requests E \<lparr>ud_id = ident, ud_data = plaintext, ud_hmac = tag\<rparr>)).
            kv s (userData_key ident) = kv r (userData_key ident)
            \<and> kv s (backup_key ident) = kv r (backup_key ident)
          \<or> kv s (userData_key ident)
               = Some \<lparr>val = JSON_stringify E (user_data_json plaintext tag),
                       expires = now r + 15 * 60\<rparr>
            \<and> kv s (backup_key ident) = Some \<lparr>val = plaintext, expires = now r + 15 * 60\<rparr>)
      \<and> kv (snd (putUserData E \<lparr>ud_id = ident, ud_data = plaintext, ud_hmac = tag\<rparr> r))
           (userData_key ident)
         = Some \<lparr>val = JSON_stringify E (user_data_json plaintext tag), expires = now r + 15 * 60\<rparr>
      \<and> kv (snd (putUserData E \<lparr>ud_id = ident, ud_data = plaintext, ud_hmac = tag\<rparr> r))
           (backup_key ident)
         = Some \<lparr>val = plaintext, expires = now r + 15 * 60\<rparr>
      \<and> (\<forall>k. k \<noteq> userData_key ident \<and> k \<noteq> backup_key ident \<longrightarrow>
             kv (snd (putUserData E \<lparr>ud_id = ident, ud_data = plaintext, ud_hmac = tag\<rparr> r)) k
             = kv r k)
      \<and> (json_round_trip E plaintext tag \<longrightarrow>
            fst (getUserData E ident
                   (snd (putUserData E \<lparr>ud_id = ident, ud_data = plaintext, ud_hmac = tag\<rparr> r)))
            = Inr (Some \<lparr>pd_id = ident, pd_data = JString plaintext, pd_hmac = JString tag\<rparr>))
      \<and> (plaintext \<noteq> [] \<and> live_value r (userInfo_key ident) = Some secret \<and> secret \<noteq> [] \<longrightarrow>
            fst (getBackupUserData E ident
                   (snd (putUserData E \<lparr>ud_id = ident, ud_data = plaintext, ud_hmac = tag\<rparr> r)))
            = Inr (Some plaintext))
      \<and> (plaintext = [] \<longrightarrow>
            fst (getBackupUserData E ident
                   (snd (putUserData E \<lparr>ud_id = ident, ud_data = plaintext, ud_hmac = tag\<rparr> r)))
            = Inr None)"
proof -
  let ?ud = "\<lparr>ud_id = ident, ud_data = plaintext, ud_hmac = tag\<rparr>"
  let ?after = "write_entry (backup_key ident) plaintext 900
                  (write_entry (userData_key ident)
                     (JSON_stringify E (user_data_json plaintext tag)) 900 (r\<lparr>isOpen := True\<rparr>))"
  have put: "putUserData E ?ud r = (Inr (), ?after)"
    using assms by (simp add: putUserData_up)
  have seen: "states_seen (r\<lparr>isOpen := True\<rparr>) (putUserData_requests E ?ud)
                = [r\<lparr>isOpen := True\<rparr>, ?after]"
    by (simp add: states_seen_putUserData)
  have written:
    "kv ?after (userData_key ident)
       = Some \<lparr>val = JSON_stringify E (user_data_json plaintext tag), expires = now r + 15 * 60\<rparr>"
    "kv ?after (backup_key ident) = Some \<lparr>val = plaintext, expires = now r + 15 * 60\<rparr>"
    "\<forall>k. k \<noteq> userData_key ident \<and> k \<noteq> backup_key ident \<longrightarrow> kv ?after k = kv r k"
    by (simp_all add: store_simps keys_distinct)
  have primary: "json_round_trip E plaintext tag \<longrightarrow>
      fst (getUserData E ident ?after)
        = Inr (Some \<lparr>pd_id = ident, pd_data = JString plaintext, pd_hmac = JString tag\<rparr>)"
    using assms
    by (simp add: getUserData_up store_simps keys_distinct json_round_trip_def
        get_prop_user_data_json)
  have backup:
    "plaintext \<noteq> [] \<and> live_value r (userInfo_key ident) = Some secret \<and> secret \<noteq> [] \<longrightarrow>
       fst (getBackupUserData E ident ?after) = Inr (Some plaintext)"
    "plaintext = [] \<longrightarrow> fst (getBackupUserData E ident ?after) = Inr None"
    using assms by (simp_all add: getBackupUserData_up store_simps keys_distinct)
  show ?thesis
    unfolding put seen using written primary backup by simp
qed

theorem putUserData_writes_both_witness:
  "snd (putUserData demo_env \<lparr>ud_id = ''u1'', ud_data = ''hello'', ud_hmac = ''K|#olleh''\<rparr>
          (demo_store (Some ''s1'') None None))
     = last (states_seen (demo_store (Some ''s1'') None None\<lparr>isOpen := True\<rparr>)
               (putUserData_requests demo_env
                  \<lparr>ud_id = ''u1'', ud_data = ''hello'', ud_hmac = ''K|#olleh''\<rparr>))
   \<and> kv (snd (putUserData demo_env \<lparr>ud_id = ''u1'', ud_data = ''hello'', ud_hmac = ''K|#olleh''\<rparr>
              (demo_store (Some ''s1'') None None))) (backup_key ''u1'')
     = Some \<lparr>val = ''hello'', expires = 900\<rparr>
   \<and> fst (getUserData demo_env ''u1''
            (snd (putUserData demo_env \<lparr>ud_id = ''u1'', ud_data = ''hello'', ud_hmac = ''K|#olleh''\<rparr>
                    (demo_store (Some ''s1'') None None))))
      = Inr (Some \<lparr>pd_id = ''u1'', pd_data = JString ''hello'', pd_hmac = JString ''K|#olleh''\<rparr>)
   \<and> fst (getBackupUserData demo_env ''u1''
            (snd (putUserData demo_env \<lparr>ud_id = ''u1'', ud_data = ''hello'', ud_hmac = ''K|#olleh''\<rparr>
                    (demo_store (Some ''s1'') None None))))
      = Inr (Some ''hello'')"
proof -
  have rt: "json_round_trip demo_env ''hello'' ''K|#olleh''"
    using demo_json_round_trip_hello by (simp add: demo_generateServerHMAC demo_encryptData)
  have t0: "now (demo_store (Some ''s1'') None None) = 0"
    by (simp add: demo_store_def)
  have nonempty: "''hello'' \<noteq> []" "''s1'' \<noteq> []" by simp_all
  note live = live_value_demo_store(1) [of "Some ''s1''" None None]
  note save = putUserData_writes_both
            [where r = "demo_store (Some ''s1'') None None" and E = demo_env and ident = "''u1''"
               and plaintext = "''hello''" and tag = "''K|#olleh''" and secret = "''s1''",
             OF up_demo_store]
  from save have seen:
    "snd (putUserData demo_env \<lparr>ud_id = ''u1'', ud_data = ''hello'', ud_hmac = ''K|#olleh''\<rparr>
            (demo_store (Some ''s1'') None None))
       = last (states_seen (demo_store (Some ''s1'') None None\<lparr>isOpen := True\<rparr>)
                 (putUserData_requests demo_env
                    \<lparr>ud_id = ''u1'', ud_data = ''hello'', ud_hmac = ''K|#olleh''\<rparr>))"
    by blast
  from save have
    "kv (snd (putUserData demo_env \<lparr>ud_id = ''u1'', ud_data = ''hello'', ud_hmac = ''K|#olleh''\<rparr>
                (demo_store (Some ''s1'') None None))) (backup_key ''u1'')
       = Some \<lparr>val = ''hello'', expires = now (demo_store (Some ''s1'') None None) + 15 * 60\<rparr>"
    by blast
  then have stored:
    "kv (snd (putUserData demo_env \<lparr>ud_id = ''u1'', ud_data = ''hello'', ud_hmac = ''K|#olleh''\<rparr>
                (demo_store (Some ''s1'') None None))) (backup_key ''u1'')
       = Some \<lparr>val = ''hello'', expires = 900\<rparr>"
    by (simp add: t0)
  from save rt have primary:
    "fst (getUserData demo_env ''u1''
            (snd (putUserData demo_env \<lparr>ud_id = ''u1'', ud_data = ''hello'', ud_hmac = ''K|#olleh''\<rparr>
                    (demo_store (Some ''s1'') None None))))
       = Inr (Some \<lparr>pd_id = ''u1'', pd_data = JString ''hello'', pd_hmac = JString ''K|#olleh''\<rparr>)"
    by blast
  from save nonempty live have backup:
    "fst (getBackupUserData demo_env ''u1''
            (snd (putUserData demo_env \<lparr>ud_id = ''u1'', ud_data = ''hello'', ud_hmac = ''K|#olleh''\<rparr>
                    (demo_store (Some ''s1'') None None))))
       = Inr (Some ''hello'')"
    by blast
  show ?thesis
    by (intro conjI seen stored primary backup)
qed

text \<open>
  C5 as stated fails on the empty plaintext: after the save the primary record reads
  \<open>''\<close> and the backup record reads as missing.
\<close>

theorem putUserData_empty_plaintext_counterexample:
  "live_value (demo_store (Some ''s1'') None None) (userInfo_key ''u1'') = Some ''s1''
   \<and> fst (putUserData demo_env \<lparr>ud_id = ''u1'', ud_data = [], ud_hmac = ''K|#''\<rparr>
            (demo_store (Some ''s1'') None None)) = Inr ()
   \<and> fst (getUserData demo_env ''u1''
            (snd (putUserData demo_env \<lparr>ud_id = ''u1'', ud_data = [], ud_hmac = ''K|#''\<rparr>
                    (demo_store (Some ''s1'') None None))))
      = Inr (Some \<lparr>pd_id = ''u1'', pd_data = JString [], pd_hmac = JString ''K|#''\<rparr>)
   \<and> fst (getBackupUserData demo_env ''u1''
            (snd (putUserData demo_env \<lparr>ud_id = ''u1'', ud_data = [], ud_hmac = ''K|#''\<rparr>
                    (demo_store (Some ''s1'') None None))))
      = Inr None"
  by (simp add: putUserData_up getUserData_up getBackupUserData_up up_demo_store
      live_value_demo_store store_simps keys_distinct demo_env_simps demo_JSON_parse_def
      demo_JSON_stringify_def user_data_json_def not_quote_def)

text \<open>
  C8. On a server that accepts requests, \<open>getUserInfo\<close> (lookup) returns the stored
  secret when it is live and sets its expiry to one hour (3600 seconds) from now,
  touching no other key; when the secret is absent or expired it returns null without
  an error and leaves every entry as it was. The secret stored for the identity is not
  the empty string, as in every store the program reaches
  (\<open>reachable_stored_secret_ok\<close>).
\<close>

theorem getUserInfo_sliding_expiry:
  assumes "up r" and "stored_secret_ok r ident"
  shows "(live_value r (userInfo_key ident) = Some secret \<longrightarrow>
            fst (getUserInfo ident r) = Inr (Some \<lparr>ui_id = ident, ui_secret = secret\<rparr>)
            \<and> kv (snd (getUserInfo ident r)) (userInfo_key ident)
               = Some \<lparr>val = secret, expires = now r + 60 * 60\<rparr>
            \<and> (\<forall>k. k \<noteq> userInfo_key ident \<longrightarrow> kv (snd (getUserInfo ident r)) k = kv r k))
       \<and> (live_value r (userInfo_key ident) = None \<longrightarrow>
            fst (getUserInfo ident r) = Inr None \<and> kv (snd (getUserInfo ident r)) = kv r)"
proof -
  have nonempty: "secret \<noteq> []" if "live_value r (userInfo_key ident) = Some secret"
    using that assms(2)
    by (auto simp add: live_value_def stored_secret_ok_def split: option.splits if_splits)
  show ?thesis
    using assms(1) nonempty by (auto simp add: getUserInfo_up store_simps)
qed

theorem getUserInfo_sliding_expiry_witness:
  "fst (getUserInfo ''u1'' (advance 3000 demo_connected))
     = Inr (Some \<lparr>ui_id = ''u1'', ui_secret = ''s1''\<rparr>)
   \<and> kv (snd (getUserInfo ''u1'' (advance 3000 demo_connected))) (userInfo_key ''u1'')
      = Some \<lparr>val = ''s1'', expires = 6600\<rparr>
   \<and> fst (getUserInfo ''u1'' (advance 3600 demo_connected)) = Inr None"
proof -
  have up: "up (advance dt demo_connected)" for dt
    by (simp add: demo_connected_eq up_advance up_write_entry)
  have ok: "stored_secret_ok (advance dt demo_connected) ''u1''" for dt
    by (rule reachable_stored_secret_ok [OF reachable_demo_connected [of demo_env]])
  have live: "live_value (advance 3000 demo_connected) (userInfo_key ''u1'') = Some ''s1''"
    by (simp add: demo_connected_eq live_value_advance_write_entry)
  have expired: "live_value (advance 3600 demo_connected) (userInfo_key ''u1'') = None"
    by (simp add: demo_connected_eq live_value_advance_write_entry)
  have t: "now (advance 3000 demo_connected) = 3000"
    by (simp add: demo_connected_eq advance_def now_write_entry)
  show ?thesis
    using getUserInfo_sliding_expiry [OF up [of 3000] ok [of 3000], of "''s1''"]
          getUserInfo_sliding_expiry [OF up [of 3600] ok [of 3600], of "''s1''"]
          live expired t
    by simp
qed

text \<open>
  C4. When the primary record fails its at-rest tag check (the tag recomputed over the
  re-encryption of what is stored under \<open>data\<close> differs from what is stored under
  \<open>hmac\<close>) and the backup record is absent or expired, the read answers 400 with the
  fixed message "Data tampered and backup missing, ..." and nothing else: the body holds
  neither the stored plaintext nor a ciphertext. One line is logged, and the primary and
  backup entries are left as they were.
\<close>

theorem get_route_tampered_no_backup:
  assumes "up r" and "ident \<noteq> []"
    and "live_value r (userInfo_key ident) = Some secret" and "secret \<noteq> []"
    and "live_value r (userData_key ident) = Some raw" and "raw \<noteq> []"
    and "JSON_parse E raw = Some parsedData"
    and "get_prop parsedData ''data'' = Inr d"
    and "get_prop parsedData ''hmac'' = Inr storedHmac"
    and "encryptData_dyn E d ident secret = Inr encryptedData"
    and "JString (generateServerHMAC E encryptedData) \<noteq> storedHmac"
    and "live_value r (backup_key ident) = None"
  shows "fst (get_route E (Some ident) r)
           = Response 400 (Failure_message
               ''Data tampered and backup missing, please connect and save data again.'')
         \<and> snd (snd (get_route E (Some ident) r)) = [Log_tampering ident]
         \<and> kv (fst (snd (get_route E (Some ident) r))) (userData_key ident)
            = kv r (userData_key ident)
         \<and> kv (fst (snd (get_route E (Some ident) r))) (backup_key ident)
            = kv r (backup_key ident)"
  using assms
  by (simp add: get_route_def getUserInfo_up getUserData_up getBackupUserData_up store_simps
      keys_distinct tampered_no_backup_def)

theorem get_route_tampered_no_backup_witness:
  "fst (get_route demo_env (Some ''u1'') (demo_store (Some ''s1'') (Some tampered_raw) None))
     = Response 400 (Failure_message
         ''Data tampered and backup missing, please connect and save data again.'')
   \<and> snd (snd (get_route demo_env (Some ''u1'') (demo_store (Some ''s1'') (Some tampered_raw) None)))
      = [Log_tampering ''u1'']
   \<and> kv (fst (snd (get_route demo_env (Some ''u1'')
                     (demo_store (Some ''s1'') (Some tampered_raw) None)))) (userData_key ''u1'')
      = kv (demo_store (Some ''s1'') (Some tampered_raw) None) (userData_key ''u1'')
   \<and> kv (fst (snd (get_route demo_env (Some ''u1'')
                     (demo_store (Some ''s1'') (Some tampered_raw) None)))) (backup_key ''u1'')
      = kv (demo_store (Some ''s1'') (Some tampered_raw) None) (backup_key ''u1'')"
proof -
  have ident: "''u1'' \<noteq> []" and secret: "''s1'' \<noteq> []" by simp_all
  show ?thesis
    by (rule get_route_tampered_no_backup
          [OF up_demo_store ident live_value_demo_store(1) secret live_value_demo_store(2)
              tampered_raw_nonempty demo_parse_tampered_raw get_prop_user_data_json
              demo_encryptData_dyn_evil demo_tag_mismatch live_value_demo_store(3)])
qed

text \<open>
  C1, as amended. Take a store that answers, an identity with a live secret, a primary
  record that fails its at-rest tag check, and a backup record that is present and not the
  empty string. Then the read answers 200 with the re-encryption of the backup's
  plaintext and a fresh transit tag over it, logs the tampering once, and rewrites the
  primary record as the backup's plaintext with the at-rest tag recomputed over its
  re-encryption. A second read straight after answers the same, logs nothing (the tag
  check passes, no promotion) and leaves the store as it is. \<open>JSON.parse\<close> is taken to
  invert \<open>JSON.stringify\<close> on the record written.
\<close>

theorem get_route_self_heal:
  assumes "up r" and "ident \<noteq> []"
    and "live_value r (userInfo_key ident) = Some secret" and "secret \<noteq> []"
    and "live_value r (userData_key ident) = Some raw" and "raw \<noteq> []"
    and "JSON_parse E raw = Some parsedData"
    and "get_prop parsedData ''data'' = Inr d"
    and "get_prop parsedData ''hmac'' = Inr storedHmac"
    and "encryptData_dyn E d ident secret = Inr encryptedData"
    and "JString (generateServerHMAC E encryptedData) \<noteq> storedHmac"
    and "live_value r (backup_key ident) = Some backup" and "backup \<noteq> []"
    and "json_round_trip E backup (generateServerHMAC E (encryptData E backup ident secret))"
  shows "fst (get_route E (Some ident) r)
           = Response 200 (Success_data (encryptData E backup ident secret)
               (generateHMAC E (encryptData E backup ident secret) secret))
         \<and> snd (snd (get_route E (Some ident) r)) = [Log_tampering ident]
         \<and> kv (fst (snd (get_route E (Some ident) r))) (userData_key ident)
            = Some \<lparr>val = JSON_stringify E (user_data_json backup
                             (generateServerHMAC E (encryptData E backup ident secret))),
                     expires = now r + 15 * 60\<rparr>
         \<and> get_route E (Some ident) (fst (snd (get_route E (Some ident) r)))
            = (Response 200 (Success_data (encryptData E backup ident secret)
                 (generateHMAC E (encryptData E backup ident secret) secret)),
               fst (snd (get_route E (Some ident) r)), [])"
proof -
  let ?enc = "encryptData E backup ident secret"
  let ?tag = "generateServerHMAC E ?enc"
  let ?r1 = "write_entry (backup_key ident) backup 900
               (write_entry (userData_key ident) (JSON_stringify E (user_data_json backup ?tag)) 900
                  (write_entry (userInfo_key ident) secret 3600 (r\<lparr>isOpen := True\<rparr>)))"
  have first: "get_route E (Some ident) r
                 = (Response 200 (Success_data ?enc (generateHMAC E ?enc secret)), ?r1,
                    [Log_tampering ident])"
    using assms
    by (simp add: get_route_def getUserInfo_up getUserData_up getBackupUserData_up store_simps
        keys_distinct get_success_def)
  have same: "write_entry (userInfo_key ident) secret 3600 (?r1\<lparr>isOpen := True\<rparr>) = ?r1"
    by (rule trans [OF _ write_entry_same [of ?r1 "userInfo_key ident" secret 3600]])
       (simp_all add: store_simps keys_distinct)
  have second: "get_route E (Some ident) ?r1
                  = (Response 200 (Success_data ?enc (generateHMAC E ?enc secret)), ?r1, [])"
    using assms same
    by (simp add: get_route_def getUserInfo_up getUserData_up store_simps keys_distinct
        get_success_def json_round_trip_def get_prop_user_data_json encryptData_dyn_def)
  show ?thesis
    by (simp add: first second store_simps keys_distinct)
qed

theorem get_route_self_heal_witness:
  "fst (get_route demo_env (Some ''u1'')
          (demo_store (Some ''s1'') (Some tampered_raw) (Some ''hello'')))
     = Response 200 (Success_data ''#olleh'' ''s1|#olleh'')
   \<and> snd (snd (get_route demo_env (Some ''u1'')
          (demo_store (Some ''s1'') (Some tampered_raw) (Some ''hello''))))
      = [Log_tampering ''u1'']
   \<and> snd (snd (get_route demo_env (Some ''u1'')
          (fst (snd (get_route demo_env (Some ''u1'')
             (demo_store (Some ''s1'') (Some tampered_raw) (Some ''hello''))))))) = []"
proof -
  have ident: "''u1'' \<noteq> []" and secret: "''s1'' \<noteq> []" and backup: "''hello'' \<noteq> []"
    by simp_all
  note heal = get_route_self_heal
          [OF up_demo_store ident live_value_demo_store(1) secret live_value_demo_store(2)
              tampered_raw_nonempty demo_parse_tampered_raw get_prop_user_data_json
              demo_encryptData_dyn_evil demo_tag_mismatch live_value_demo_store(3) backup
              demo_json_round_trip_hello]
  show ?thesis
    using heal by (simp add: demo_encryptData demo_generateHMAC)
qed

text \<open>
  C1 as stated fails on a backup record that is present and holds the empty string (the
  plaintext a save of the empty string leaves): \<open>if (data)\<close> in \<open>getBackupUserData\<close> takes
  it for a missing backup, and the read answers 400 instead of the backup's plaintext.
\<close>

theorem get_route_empty_backup_counterexample:
  "live_value (demo_store (Some ''s1'') (Some tampered_raw) (Some [])) (userInfo_key ''u1'')
     = Some ''s1''
   \<and> fst (getUserData demo_env ''u1'' (demo_store (Some ''s1'') (Some tampered_raw) (Some [])))
      = Inr (Some \<lparr>pd_id = ''u1'', pd_data = JString ''evil'', pd_hmac = JString ''K|#olleh''\<rparr>)
   \<and> generateServerHMAC demo_env (encryptData demo_env ''evil'' ''u1'' ''s1'') \<noteq> ''K|#olleh''
   \<and> kv (demo_store (Some ''s1'') (Some tampered_raw) (Some [])) (backup_key ''u1'')
      = Some \<lparr>val = [], expires = 900\<rparr>
   \<and> fst (get_route demo_env (Some ''u1'') (demo_store (Some ''s1'') (Some tampered_raw) (Some [])))
      = Response 400 (Failure_message
          ''Data tampered and backup missing, please connect and save data again.'')"
proof -
  have backup: "kv (demo_store (Some ''s1'') (Some tampered_raw) (Some [])) (backup_key ''u1'')
                  = Some \<lparr>val = [], expires = 900\<rparr>"
    by (simp add: demo_store_def keys_distinct)
  have rest:
    "live_value (demo_store (Some ''s1'') (Some tampered_raw) (Some [])) (userInfo_key ''u1'')
       = Some ''s1''
     \<and> fst (getUserData demo_env ''u1'' (demo_store (Some ''s1'') (Some tampered_raw) (Some [])))
        = Inr (Some \<lparr>pd_id = ''u1'', pd_data = JString ''evil'', pd_hmac = JString ''K|#olleh''\<rparr>)
     \<and> generateServerHMAC demo_env (encryptData demo_env ''evil'' ''u1'' ''s1'') \<noteq> ''K|#olleh''
     \<and> fst (get_route demo_env (Some ''u1'')
               (demo_store (Some ''s1'') (Some tampered_raw) (Some [])))
        = Response 400 (Failure_message
            ''Data tampered and backup missing, please connect and save data again.'')"
    by (simp add: get_route_def getUserInfo_up getUserData_up getBackupUserData_up up_demo_store
        live_value_demo_store store_simps keys_distinct demo_parse_tampered_raw
        tampered_raw_nonempty get_prop_user_data_json demo_encryptData_dyn_evil
        demo_generateServerHMAC demo_encryptData tampered_no_backup_def Let_def)
  from backup rest show ?thesis by simp
qed

text \<open>
  C10, as amended. On a store that answers, for an identity with a live secret: when
  the primary record's value is a string that is not empty and that \<open>JSON.parse\<close>
  rejects, \<open>getUserData\<close> ends in a CacheError and the read answers 503 "Service
  Unavailable"; when the value is the empty string (which \<open>JSON.parse\<close> rejects too),
  \<open>getUserData\<close> returns null and the read answers 400 "Data missing, ...". In both
  cases the tag comparison is not reached: no tampering is logged and the primary and
  backup entries are left as they were.
\<close>

theorem get_route_invalid_json:
  assumes "up r" and "ident \<noteq> []"
    and "live_value r (userInfo_key ident) = Some secret" and "secret \<noteq> []"
    and "live_value r (userData_key ident) = Some raw"
    and "JSON_parse E raw = None"
  shows "(raw \<noteq> [] \<longrightarrow>
            fst (getUserData E ident r) = Inl CacheError
            \<and> fst (get_route E (Some ident) r) = Response 503 (Failure_error ''Service Unavailable'')
            \<and> snd (snd (get_route E (Some ident) r)) = [Log_CacheManager CacheError])
         \<and> (raw = [] \<longrightarrow>
            fst (getUserData E ident r) = Inr None
            \<and> fst (get_route E (Some ident) r)
               = Response 400 (Failure_message ''Data missing, please save data again.'')
            \<and> snd (snd (get_route E (Some ident) r)) = [])
         \<and> kv (fst (snd (get_route E (Some ident) r))) (userData_key ident)
            = kv r (userData_key ident)
         \<and> kv (fst (snd (get_route E (Some ident) r))) (backup_key ident)
            = kv r (backup_key ident)"
  using assms
  by (simp add: get_route_def getUserInfo_up getUserData_up store_simps keys_distinct
      caught_def data_missing_def)

theorem get_route_invalid_json_witness:
  "fst (get_route demo_env (Some ''u1'') (demo_store (Some ''s1'') (Some ''{oops'') (Some ''hello'')))
     = Response 503 (Failure_error ''Service Unavailable'')
   \<and> snd (snd (get_route demo_env (Some ''u1'')
                 (demo_store (Some ''s1'') (Some ''{oops'') (Some ''hello''))))
      = [Log_CacheManager CacheError]
   \<and> fst (get_route demo_env (Some ''u1'') (demo_store (Some ''s1'') (Some []) (Some ''hello'')))
      = Response 400 (Failure_message ''Data missing, please save data again.'')"
proof -
  have ident: "''u1'' \<noteq> []" and secret: "''s1'' \<noteq> []" by simp_all
  have bad: "JSON_parse demo_env ''{oops'' = None" and empty: "JSON_parse demo_env [] = None"
    by (simp_all add: demo_env_simps demo_JSON_parse_def)
  show ?thesis
    using get_route_invalid_json
            [OF up_demo_store ident live_value_demo_store(1) secret live_value_demo_store(2) bad,
             of "Some ''hello''"]
          get_route_invalid_json
            [OF up_demo_store ident live_value_demo_store(1) secret live_value_demo_store(2) empty,
             of "Some ''hello''"]
    by simp
qed

text \<open>
  C10 as stated fails on the empty string: it is not valid JSON, and the read answers
  400 "Data missing" with no CacheError raised, not 503.
\<close>

theorem get_route_empty_primary_counterexample:
  "live_value (demo_store (Some ''s1'') (Some []) (Some ''hello'')) (userData_key ''u1'') = Some []
   \<and> JSON_parse demo_env [] = None
   \<and> fst (getUserData demo_env ''u1'' (demo_store (Some ''s1'') (Some []) (Some ''hello'')))
      = Inr None
   \<and> fst (get_route demo_env (Some ''u1'') (demo_store (Some ''s1'') (Some []) (Some ''hello'')))
      = Response 400 (Failure_message ''Data missing, please save data again.'')"
  by (simp add: get_route_def getUserInfo_up getUserData_up up_demo_store live_value_demo_store
      store_simps keys_distinct data_missing_def demo_env_simps demo_JSON_parse_def Let_def)

text \<open>
  C3. Decrypting what \<open>encryptData\<close> produced, with the same identity and secret, gives
  the plaintext back: both functions derive the key from the secret and the IV from the
  identity in the same way, so the round trip of the program is the round trip of the
  cipher, which is taken to invert itself under equal key and IV.
\<close>

theorem encrypt_decrypt_round_trip:
  assumes "\<And>p key iv. Utf8_stringify E (AES_decrypt E (AES_encrypt E p key iv) key iv) = Some p"
  shows "decryptData E (encryptData E P I S) I S = Inr P"
proof -
  let ?key = "Hex_parse (getKey E S)"
  let ?iv = "Hex_parse (string_slice I 0 16)"
  have enc: "encryptData E P I S = AES_encrypt E P ?key ?iv"
    by (simp add: encryptData_def Let_def)
  have dec: "decryptData E c I S =
               (case Utf8_stringify E (AES_decrypt E c ?key ?iv) of
                  None \<Rightarrow> Inl Utf8Error
                | Some decryptedData \<Rightarrow> Inr decryptedData)" for c
    by (simp add: decryptData_def Let_def)
  have "Utf8_stringify E (AES_decrypt E (AES_encrypt E P ?key ?iv) ?key ?iv) = Some P"
    by (rule assms)
  then show ?thesis
    by (simp add: enc dec)
qed

theorem encrypt_decrypt_round_trip_witness:
  "decryptData demo_env (encryptData demo_env ''hello'' ''u1'' ''s1'') ''u1'' ''s1'' = Inr ''hello''"
  by (rule encrypt_decrypt_round_trip [of demo_env, OF demo_cipher_round_trip])

text \<open>
  C9, as amended. \<open>clearSecret\<close> drops the client's own copy of identity and secret and
  connects again; on a store that answers the client holds the fresh identity and secret
  afterwards. No request of it deletes anything: the entry of the old identity is what
  it was, and a server-side lookup of the old identity still returns the old secret (it
  goes away by expiry only).
\<close>

theorem clearSecret_keeps_old_secret:
  assumes "up r" and "live_value r (userInfo_key old) = Some secret" and "secret \<noteq> []"
    and "fst (fresh 3) \<noteq> old"
  shows "c_id (fst (clearSecret fresh (c, r))) = Some (fst (fresh 3))
         \<and> c_secret (fst (clearSecret fresh (c, r))) = Some (snd (fresh 3))
         \<and> kv (snd (clearSecret fresh (c, r))) (userInfo_key old) = kv r (userInfo_key old)
         \<and> fst (getUserInfo old (snd (clearSecret fresh (c, r))))
            = Inr (Some \<lparr>ui_id = old, ui_secret = secret\<rparr>)"
proof -
  have run: "clearSecret fresh (c, r)
               = (c\<lparr>c_id := Some (fst (fresh 3)), c_secret := Some (snd (fresh 3))\<rparr>,
                  write_entry (userInfo_key (fst (fresh 3))) (snd (fresh 3)) 3600
                    (r\<lparr>isOpen := True\<rparr>))"
    using assms(1) by (simp add: clearSecret_def numeral_3_eq_3 connect_route_up)
  show ?thesis
    using assms
    by (simp add: run getUserInfo_up store_simps userInfo_key_inject)
qed

theorem clearSecret_keeps_old_secret_witness:
  "c_id (fst (clearSecret demo_fresh (demo_client, demo_store (Some ''s1'') None None)))
     = Some ''u2''
   \<and> c_secret (fst (clearSecret demo_fresh (demo_client, demo_store (Some ''s1'') None None)))
      = Some ''s2''
   \<and> fst (getUserInfo ''u1''
            (snd (clearSecret demo_fresh (demo_client, demo_store (Some ''s1'') None None))))
      = Inr (Some \<lparr>ui_id = ''u1'', ui_secret = ''s1''\<rparr>)"
proof -
  have secret: "''s1'' \<noteq> []" by simp
  have new: "fst (demo_fresh 3) \<noteq> ''u1''" by (simp add: demo_fresh_def)
  show ?thesis
    using clearSecret_keeps_old_secret
            [where fresh = demo_fresh and c = demo_client,
             OF up_demo_store live_value_demo_store(1) [of "Some ''s1''" None None] secret new]
    by (simp add: demo_fresh_def)
qed

text \<open>
  C9 as stated fails: the client of identity \<open>u1\<close> clears its session, and the server
  still finds the secret of \<open>u1\<close>.
\<close>

theorem clearSecret_lookup_counterexample:
  "c_id demo_client = Some ''u1''
   \<and> live_value (demo_store (Some ''s1'') None None) (userInfo_key ''u1'') = Some ''s1''
   \<and> c_id (fst (clearSecret demo_fresh (demo_client, demo_store (Some ''s1'') None None)))
      = Some ''u2''
   \<and> fst (getUserInfo ''u1''
            (snd (clearSecret demo_fresh (demo_client, demo_store (Some ''s1'') None None))))
      = Inr (Some \<lparr>ui_id = ''u1'', ui_secret = ''s1''\<rparr>)"
  by (simp add: clearSecret_def numeral_3_eq_3 connect_route_up up_demo_store demo_fresh_def
      demo_client_def getUserInfo_up store_simps live_value_demo_store userInfo_key_inject)

text \<open>
  C7. The IV that \<open>encryptData\<close> hands to the cipher is \<open>Hex.parse\<close> of the first 16
  characters of the identity: the characters are read as hexadecimal digits, two to a
  byte, so the IV has at most 8 significant bytes, never 16, and its bytes are not the
  bytes of the identity. For the identity \<open>123e4567-e89b-42d3-a456-426614174000\<close> the IV
  is the 8 bytes \<open>12 3e 45 67 f2 89 0b 42\<close>: \<open>-e\<close> is read as the number -14 and
  \<open>b-\<close> as 11.
\<close>

theorem encryptData_iv_is_hex_of_identity:
  "encryptData E data ident secret
     = AES_encrypt E data (Hex_parse (getKey E secret)) (Hex_parse (string_slice ident 0 16))
   \<and> sigBytes (Hex_parse (string_slice ident 0 16)) \<le> 8
   \<and> Hex_parse (string_slice ''123e4567-e89b-42d3-a456-426614174000'' 0 16)
      = \<lparr>words = [0x123E4567, 0xF2890B42], sigBytes = 8\<rparr>"
proof -
  have call: "encryptData E data ident secret
     = AES_encrypt E data (Hex_parse (getKey E secret)) (Hex_parse (string_slice ident 0 16))"
    by (simp add: encryptData_def Let_def)
  have short: "sigBytes (Hex_parse (string_slice ident 0 16)) \<le> 8"
    by (simp add: Hex_parse_def string_slice_def)
  have uuid: "Hex_parse (string_slice ''123e4567-e89b-42d3-a456-426614174000'' 0 16)
      = \<lparr>words = [0x123E4567, 0xF2890B42], sigBytes = 8\<rparr>"
    by code_simp
  from call short uuid show ?thesis by simp
qed

text \<open>
  C2. The save route calls \<open>decryptData\<close> first and compares the transit tag after it.
  A request whose tag does not verify and whose ciphertext does not decrypt to UTF-8 is
  therefore not answered with the integrity error: the exception of the decryption
  reaches the \<open>catch\<close> block, and the answer is 500 with that exception.
\<close>

theorem post_route_decrypts_before_verifying:
  assumes "up r" and "ident \<noteq> []"
    and "live_value r (userInfo_key ident) = Some secret" and "secret \<noteq> []"
    and "decryptData E encryptedData ident secret = Inl e"
    and "JString (generateHMAC E encryptedData secret) \<noteq> hmac"
  shows "fst (post_route E (Some ident) encryptedData hmac r)
           = Response 500 (Failure_thrown Utf8Error)
         \<and> snd (snd (post_route E (Some ident) encryptedData hmac r)) = [Log_route ''/'' Utf8Error]"
proof -
  have e: "e = Utf8Error"
    using assms(5) by (simp add: decryptData_def Let_def split: option.splits)
  show ?thesis
    using assms by (simp add: post_route_def getUserInfo_up e caught_def)
qed

theorem post_route_decrypts_before_verifying_witness:
  "fst (post_route demo_env (Some ''u1'') ''garbage'' (JString ''bad'')
          (demo_store (Some ''s1'') None None))
     = Response 500 (Failure_thrown Utf8Error)
   \<and> snd (snd (post_route demo_env (Some ''u1'') ''garbage'' (JString ''bad'')
                 (demo_store (Some ''s1'') None None)))
      = [Log_route ''/'' Utf8Error]"
proof -
  have ident: "''u1'' \<noteq> []" and secret: "''s1'' \<noteq> []" by simp_all
  have throws: "decryptData demo_env ''garbage'' ''u1'' ''s1'' = Inl Utf8Error"
    by (simp add: decryptData_def demo_env_simps demo_AES_decrypt_def demo_Utf8_stringify_def
        Let_def)
  have bad: "JString (generateHMAC demo_env ''garbage'' ''s1'') \<noteq> JString ''bad''"
    by (simp add: demo_generateHMAC)
  show ?thesis
    by (rule post_route_decrypts_before_verifying
          [OF up_demo_store ident live_value_demo_store(1) secret throws bad])
qed

end
